theory Spec2Isabelle
  imports Main
begin

section \<open>Strings\<close>

text \<open>
  A Python string is modelled as a \<open>string\<close>, the list of its characters, where a
  character is a code point below 256: \<open>CHR 0xC9\<close> is the letter E with acute accent. On
  these characters the helpers below are the \<open>str\<close> methods that
  \<^verbatim>\<open>cleanup_stale_branches.py\<close> calls, with the Unicode tables of Python 3:
  the white space of \<open>str.isspace\<close>, the letters that \<open>str.lower\<close> changes, the line
  boundaries of \<open>str.splitlines\<close> and the decimal digits of \<open>\d\<close>. Strings with
  code points from 256 on are outside the model.
\<close>

definition is_space :: "char \<Rightarrow> bool" where
  \<comment> \<open>\<open>str.isspace\<close>: tab, LF, VT, FF, CR, the separators 0x1C..0x1F, the blank,
      NEL (0x85) and the no-break space (0xA0)\<close>
  "is_space c \<longleftrightarrow>
     c \<in> set [CHR 0x09, CHR 0x0A, CHR 0x0B, CHR 0x0C, CHR 0x0D,
               CHR 0x1C, CHR 0x1D, CHR 0x1E, CHR 0x1F, CHR 0x20, CHR 0x85, CHR 0xA0]"

definition strip :: "string \<Rightarrow> string" where
  \<comment> \<open>\<open>s.strip()\<close>\<close>
  "strip s = rev (dropWhile is_space (rev (dropWhile is_space s)))"

definition upper_letters :: string where
  \<comment> \<open>the characters that \<open>str.lower\<close> changes: A to Z, and 0xC0 to 0xDE without the
      multiplication sign 0xD7\<close>
  "upper_letters =
     ''ABCDEFGHIJKLMNOPQRSTUVWXYZ'' @
     [CHR 0xC0, CHR 0xC1, CHR 0xC2, CHR 0xC3, CHR 0xC4, CHR 0xC5, CHR 0xC6, CHR 0xC7,
      CHR 0xC8, CHR 0xC9, CHR 0xCA, CHR 0xCB, CHR 0xCC, CHR 0xCD, CHR 0xCE, CHR 0xCF,
      CHR 0xD0, CHR 0xD1, CHR 0xD2, CHR 0xD3, CHR 0xD4, CHR 0xD5, CHR 0xD6,
      CHR 0xD8, CHR 0xD9, CHR 0xDA, CHR 0xDB, CHR 0xDC, CHR 0xDD, CHR 0xDE]"

definition lower_letters :: string where
  \<comment> \<open>their lower-case forms, in the same order\<close>
  "lower_letters =
     ''abcdefghijklmnopqrstuvwxyz'' @
     [CHR 0xE0, CHR 0xE1, CHR 0xE2, CHR 0xE3, CHR 0xE4, CHR 0xE5, CHR 0xE6, CHR 0xE7,
      CHR 0xE8, CHR 0xE9, CHR 0xEA, CHR 0xEB, CHR 0xEC, CHR 0xED, CHR 0xEE, CHR 0xEF,
      CHR 0xF0, CHR 0xF1, CHR 0xF2, CHR 0xF3, CHR 0xF4, CHR 0xF5, CHR 0xF6,
      CHR 0xF8, CHR 0xF9, CHR 0xFA, CHR 0xFB, CHR 0xFC, CHR 0xFD, CHR 0xFE]"

definition lower_char :: "char \<Rightarrow> char" where
  "lower_char c =
     (case map_of (zip upper_letters lower_letters) c of
        Some l \<Rightarrow> l
      | None \<Rightarrow> c)"

definition lower :: "string \<Rightarrow> string" where
  \<comment> \<open>\<open>s.lower()\<close>\<close>
  "lower s = map lower_char s"

fun split_on :: "char \<Rightarrow> string \<Rightarrow> string list" where
  \<comment> \<open>\<open>s.split(sep)\<close> for a one-character separator\<close>
  "split_on sep [] = [ [] ]"
| "split_on sep (c # cs) =
     (if c = sep then [] # split_on sep cs
      else (case split_on sep cs of
              [] \<Rightarrow> [ [c] ]
            | w # ws \<Rightarrow> (c # w) # ws))"

definition is_linebreak :: "char \<Rightarrow> bool" where
  \<comment> \<open>the line boundaries of \<open>str.splitlines\<close>: LF, CR, VT, FF, the separators
      0x1C..0x1E and NEL (0x85)\<close>
  "is_linebreak c \<longleftrightarrow>
     c \<in> set [CHR 0x0A, CHR 0x0D, CHR 0x0B, CHR 0x0C, CHR 0x1C, CHR 0x1D, CHR 0x1E, CHR 0x85]"

fun splitlines_from :: "string \<Rightarrow> string \<Rightarrow> string list" where
  \<comment> \<open>the first argument is the line read so far, reversed\<close>
  "splitlines_from cur [] = (if cur = [] then [] else [rev cur])"
| "splitlines_from cur [c] = (if is_linebreak c then [rev cur] else [rev (c # cur)])"
| "splitlines_from cur (c # d # cs) =
     (if c = CHR 0x0D \<and> d = CHR 0x0A then rev cur # splitlines_from [] cs
      else if is_linebreak c then rev cur # splitlines_from [] (d # cs)
      else splitlines_from (c # cur) (d # cs))"

definition splitlines :: "string \<Rightarrow> string list" where
  \<comment> \<open>\<open>s.splitlines()\<close>\<close>
  "splitlines s = splitlines_from [] s"

fun join :: "string \<Rightarrow> string list \<Rightarrow> string" where
  \<comment> \<open>\<open>sep.join(xs)\<close>\<close>
  "join sep [] = []"
| "join sep [x] = x"
| "join sep (x # y # ys) = x @ sep @ join sep (y # ys)"

definition startswith :: "string \<Rightarrow> string \<Rightarrow> bool" where
  \<comment> \<open>\<open>s.startswith(p)\<close>\<close>
  "startswith s p \<longleftrightarrow> take (length p) s = p"

fun contains :: "string \<Rightarrow> string \<Rightarrow> bool" where
  \<comment> \<open>\<open>p in s\<close>\<close>
  "contains p [] = (p = [])"
| "contains p (c # cs) = (startswith (c # cs) p \<or> contains p cs)"

definition is_digit :: "char \<Rightarrow> bool" where
  \<comment> \<open>\<open>\d\<close>: the decimal digits; below 256 these are 0 to 9\<close>
  "is_digit c \<longleftrightarrow> c \<in> set ''0123456789''"

definition re_escape :: "string \<Rightarrow> string" where
  \<comment> \<open>\<open>re.escape\<close>: a backslash before each of the special characters\<close>
  "re_escape s =
     concat (map (\<lambda>c. if c \<in> set (''()[]{}?*+-|^$.&~# '' @
                                   [CHR 0x5C, CHR 0x09, CHR 0x0A, CHR 0x0D, CHR 0x0B, CHR 0x0C])
                      then [CHR 0x5C, c] else [c]) s)"

section \<open>The process and its environment\<close>

text \<open>
  The program talks to git through \<open>subprocess.run\<close> and to the file system through
  \<open>pathlib\<close>. Both are parameters of the model: a \<open>system\<close> answers a command line
  from the current directory and the state \<open>'w\<close> of the outside world (file system,
  repositories, remotes), and may change that state. A command in the model always runs
  to its end and gives a return code and its output as text: that \<open>subprocess.run\<close>
  cannot start the git executable or cannot decode its output, and that \<open>os.chdir\<close>
  fails on an existing directory, is not part of the model.
\<close>

record proc =
  returncode :: int
  stdout :: string
  stderr :: string

record 'w system =
  subprocess_run :: "string \<Rightarrow> string list \<Rightarrow> 'w \<Rightarrow> proc \<times> 'w"
  is_dir :: "string \<Rightarrow> string \<Rightarrow> 'w \<Rightarrow> bool"
  path_exists :: "string \<Rightarrow> string \<Rightarrow> 'w \<Rightarrow> bool"

text \<open>
  The state of one run: the working directory of the process, the outside world, the lines
  written to standard output and to standard error, and the command lines handed to
  \<open>subprocess.run\<close> so far. The last field is a log for stating which commands a run
  issues; the program never reads it.
\<close>

record 'w state =
  cwd :: string
  world :: 'w
  out :: "string list"
  err :: "string list"
  calls :: "string list list"

definition fresh :: "string \<Rightarrow> 'w \<Rightarrow> 'w state" where
  \<comment> \<open>a newly started process in directory \<open>d\<close>\<close>
  "fresh d w = \<lparr>cwd = d, world = w, out = [], err = [], calls = []\<rparr>"

datatype exc = RuntimeError string | Exit int

definition print :: "string \<Rightarrow> 'w state \<Rightarrow> 'w state" where
  "print line s = s\<lparr>out := out s @ [line]\<rparr>"

definition echo_err :: "string \<Rightarrow> 'w state \<Rightarrow> 'w state" where
  \<comment> \<open>\<open>typer.echo(msg, err=True)\<close>\<close>
  "echo_err line s = s\<lparr>err := err s @ [line]\<rparr>"

definition path_join :: "string \<Rightarrow> string \<Rightarrow> string" where
  "path_join a b =
     (if b \<noteq> [] \<and> hd b = CHR ''/'' then b
      else if a = [] \<or> last a = CHR ''/'' then a @ b
      else a @ ''/'' @ b)"

definition chdir :: "string \<Rightarrow> 'w state \<Rightarrow> 'w state" where
  "chdir path s = s\<lparr>cwd := path_join (cwd s) path\<rparr>"

definition spawn :: "'w system \<Rightarrow> string list \<Rightarrow> 'w state \<Rightarrow> proc \<times> 'w state" where
  \<comment> \<open>\<open>subprocess.run(cmd, capture_output=True, text=True)\<close>\<close>
  "spawn sys cmd s =
     (case subprocess_run sys (cwd s) cmd (world s) of
        (p, w') \<Rightarrow> (p, s\<lparr>world := w', calls := calls s @ [cmd]\<rparr>))"

section \<open>Module level: the configured branch sets\<close>

text \<open>
  \<open>env\<close> is the process environment after \<open>load_dotenv()\<close>; \<open>getenv\<close> is
  \<open>os.getenv(name, default)\<close>.
\<close>

type_synonym env = "string \<Rightarrow> string option"

definition getenv :: "env \<Rightarrow> string \<Rightarrow> string \<Rightarrow> string" where
  "getenv env name dflt = (case env name of None \<Rightarrow> dflt | Some v \<Rightarrow> v)"

definition branch_names :: "string list \<Rightarrow> string set" where
  \<comment> \<open>the comprehension \<open>{b.strip().lower() for b in xs if b.strip()}\<close>\<close>
  "branch_names xs = set (map (\<lambda>b. lower (strip b)) (filter (\<lambda>b. strip b \<noteq> []) xs))"

definition PROTECTED :: "env \<Rightarrow> string set" where
  "PROTECTED env =
     branch_names (split_on CHR '','' (getenv env ''PROTECTED_BRANCHES''
        ''main,master,develop,dev,release,staging,production''))"

definition CRITICAL :: "env \<Rightarrow> string set" where
  "CRITICAL env =
     branch_names (split_on CHR '','' (getenv env ''CRITICAL_BRANCHES'' ''master,dev''))"

definition BASE_BRANCH_FOR_COMMIT_CHECK :: "env \<Rightarrow> string" where
  "BASE_BRANCH_FOR_COMMIT_CHECK env = strip (getenv env ''BASE_BRANCH_FOR_COMMIT_CHECK'' ''dev'')"

definition module_init :: "env \<Rightarrow> exc + unit" where
  \<comment> \<open>the three module-level checks, lines 41 to 54\<close>
  "module_init env =
     (if PROTECTED env = {} then
        Inl (RuntimeError (''PROTECTED_BRANCHES resolved to an empty set. '' @
                           ''Refusing to run to avoid deleting important branches.''))
      else if CRITICAL env = {} then
        Inl (RuntimeError (''CRITICAL_BRANCHES resolved to an empty set. '' @
                           ''Refusing to run to avoid deleting important branches.''))
      else if BASE_BRANCH_FOR_COMMIT_CHECK env = [] then
        Inl (RuntimeError ''BASE_BRANCH_FOR_COMMIT_CHECK is required to run checks'')
      else Inr ())"

section \<open>The git helpers\<close>

definition run :: "'w system \<Rightarrow> string list \<Rightarrow> bool \<Rightarrow> 'w state \<Rightarrow> (exc + string) \<times> 'w state" where
  "run sys cmd check s =
     (case spawn sys cmd s of
        (p, s') \<Rightarrow>
          if check \<and> returncode p \<noteq> 0
          then (Inl (RuntimeError (''Command failed: '' @ join '' '' cmd @ [CHR 0x0A] @
                                   strip (stderr p))), s')
          else (Inr (strip (stdout p)), s'))"

definition ensure_git_repo :: "'w system \<Rightarrow> string \<Rightarrow> 'w state \<Rightarrow> (exc + unit) \<times> 'w state" where
  "ensure_git_repo sys path s =
     (if \<not> is_dir sys (cwd s) path (world s)
      then (Inl (RuntimeError (''Path does not exist: '' @ path)), s)
      else if \<not> is_dir sys (cwd s) (path_join path ''.git'') (world s)
      then (Inl (RuntimeError (''Not a git repo: '' @ path)), s)
      else (Inr (), s))"

definition current_branch :: "'w system \<Rightarrow> 'w state \<Rightarrow> (exc + string) \<times> 'w state" where
  "current_branch sys s = run sys [''git'', ''branch'', ''--show-current''] True s"

definition local_branches :: "'w system \<Rightarrow> 'w state \<Rightarrow> (exc + string list) \<times> 'w state" where
  "local_branches sys s =
     (case run sys [''git'', ''for-each-ref'', ''--format=%(refname:short)'', ''refs/heads'']
             True s of
        (Inl e, s') \<Rightarrow> (Inl e, s')
      | (Inr res, s') \<Rightarrow> (Inr (filter (\<lambda>b. b \<noteq> []) (splitlines res)), s'))"

definition upstream_for ::
  "'w system \<Rightarrow> string \<Rightarrow> 'w state \<Rightarrow> (exc + string option) \<times> 'w state" where
  "upstream_for sys branch s =
     (case run sys [''git'', ''rev-parse'', ''--abbrev-ref'',
                    branch @ [CHR 0x40] @ ''{upstream}''] False s of
        (Inl e, s') \<Rightarrow> (Inl e, s')
      | (Inr res, s') \<Rightarrow>
          (Inr (if res \<noteq> [] \<and> \<not> contains ''fatal:'' res then Some res else None), s'))"

definition remote_branch_exists ::
  "'w system \<Rightarrow> string \<Rightarrow> string \<Rightarrow> 'w state \<Rightarrow> (exc + bool) \<times> 'w state" where
  "remote_branch_exists sys remote branch s =
     (case run sys [''git'', ''ls-remote'', ''--heads'', remote, branch] False s of
        (Inl e, s') \<Rightarrow> (Inl e, s')
      | (Inr res, s') \<Rightarrow> (Inr (strip res \<noteq> []), s'))"

definition delete_branch ::
  "'w system \<Rightarrow> string \<Rightarrow> bool \<Rightarrow> bool \<Rightarrow> 'w state \<Rightarrow> (exc + unit) \<times> 'w state" where
  "delete_branch sys branch force dry_run s =
     (let cmd = [''git'', ''branch'', if force then ''-D'' else ''-d'', branch] in
      if dry_run then (Inr (), print (''[DRY] '' @ join '' '' cmd) s)
      else (case run sys cmd True s of
              (Inl e, s') \<Rightarrow> (Inl e, s')
            | (Inr res, s') \<Rightarrow> (Inr (), s')))"

definition tip_sha :: "'w system \<Rightarrow> string \<Rightarrow> 'w state \<Rightarrow> (exc + string) \<times> 'w state" where
  "tip_sha sys branch s = run sys [''git'', ''rev-parse'', branch] True s"

definition commit_in_base :: "'w system \<Rightarrow> string \<Rightarrow> string \<Rightarrow> 'w state \<Rightarrow> bool \<times> 'w state" where
  "commit_in_base sys commit base s =
     (case spawn sys [''git'', ''merge-base'', ''--is-ancestor'', commit, base] s of
        (p, s') \<Rightarrow> (returncode p = 0, s'))"

definition issue_id_from_branch :: "string \<Rightarrow> string option" where
  \<comment> \<open>\<open>re.match(r"^(\d+)[-_].+", branch)\<close>, group 1: the longest run of leading digits,
      which must be non-empty and followed by \<open>-\<close> or \<open>_\<close> and one more character
      that is not a newline\<close>
  "issue_id_from_branch branch =
     (let ds = takeWhile is_digit branch in
      case dropWhile is_digit branch of
        sep # c # rest \<Rightarrow>
          if ds \<noteq> [] \<and> (sep = CHR ''-'' \<or> sep = CHR ''_'') \<and> c \<noteq> CHR 0x0A
          then Some ds else None
      | _ \<Rightarrow> None)"

definition closure_pattern :: "string \<Rightarrow> string" where
  \<comment> \<open>\<open>rf"(closes|closed|fixes|fixed|resolves|resolved)\s+#?{re.escape(issue_id)}\b"\<close>\<close>
  "closure_pattern issue_id =
     ''(closes|closed|fixes|fixed|resolves|resolved)'' @ [CHR 0x5C] @ ''s+#?'' @
     re_escape issue_id @ [CHR 0x5C] @ ''b''"

definition base_has_issue_closure ::
  "'w system \<Rightarrow> string \<Rightarrow> string \<Rightarrow> 'w state \<Rightarrow> (exc + bool) \<times> 'w state" where
  "base_has_issue_closure sys base issue_id s =
     (case run sys [''git'', ''log'', base, ''--regexp-ignore-case'',
                    ''--grep='' @ closure_pattern issue_id, ''-n'', ''1''] False s of
        (Inl e, s') \<Rightarrow> (Inl e, s')
      | (Inr res, s') \<Rightarrow> (Inr (strip res \<noteq> []), s'))"

section \<open>The command \<open>clean\<close>\<close>

text \<open>The parameters of \<open>clean\<close>, as typer hands them to the function.\<close>

record clean_args =
  repo :: string
  remote :: string
  base :: string
  dry_run :: bool
  force :: bool
  protect :: "string list"
  fetch :: bool
  check_upstream_missing :: bool
  check_remote_missing :: bool
  check_issue_closure :: bool

definition default_args :: "env \<Rightarrow> string \<Rightarrow> clean_args" where
  \<comment> \<open>the declared defaults of the options, for a given \<open>--repo\<close>\<close>
  "default_args env r =
     \<lparr>repo = r, remote = ''origin'', base = BASE_BRANCH_FOR_COMMIT_CHECK env,
      dry_run = False, force = False, protect = [], fetch = False,
      check_upstream_missing = False, check_remote_missing = False,
      check_issue_closure = False\<rparr>"

definition clean_protected :: "env \<Rightarrow> clean_args \<Rightarrow> string set" where
  \<comment> \<open>line 171\<close>
  "clean_protected env a = PROTECTED env \<union> branch_names (protect a)"

definition clean_critical :: "env \<Rightarrow> clean_args \<Rightarrow> string set" where
  \<comment> \<open>line 172\<close>
  "clean_critical env a = CRITICAL env"

text \<open>
  The body of the loop over the branches is given in four parts, last part first; each
  part ends in the next one. \<open>Inr ()\<close> is the end of the iteration (also by
  \<open>continue\<close>), \<open>Inl e\<close> an exception that leaves the loop.
\<close>

definition clean_body_tip ::
  "'w system \<Rightarrow> clean_args \<Rightarrow> string \<Rightarrow> string \<Rightarrow> 'w state \<Rightarrow> (exc + unit) \<times> 'w state" where
  \<comment> \<open>lines 221 to 231\<close>
  "clean_body_tip sys a base_ref b s =
     (case tip_sha sys b s of
        (Inl e, s1) \<Rightarrow> (Inl e, s1)
      | (Inr tip, s1) \<Rightarrow>
          (case commit_in_base sys tip base_ref s1 of
             (in_base, s2) \<Rightarrow>
               if \<not> in_base
               then (Inr (), print (''[KEEP] '' @ b @ '' (tip '' @ take 8 tip @ '' NOT in '' @
                                    base_ref @ '')'') s2)
               else
                 (case (if check_remote_missing a then remote_branch_exists sys (remote a) b s2
                        else (Inr False, s2)) of
                    (Inl e, s3) \<Rightarrow> (Inl e, s3)
                  | (Inr on_remote, s3) \<Rightarrow>
                      if on_remote
                      then (Inr (), print (''[KEEP] '' @ b @ '' (exists on '' @ remote a @
                                           '')'') s3)
                      else delete_branch sys b (force a) (dry_run a)
                             (print (''[DEL ] '' @ b @ '' (tip '' @ take 8 tip @ '' is in '' @
                                     base_ref @ '')'') s3))))"

definition clean_body_issue ::
  "'w system \<Rightarrow> clean_args \<Rightarrow> string \<Rightarrow> string \<Rightarrow> 'w state \<Rightarrow> (exc + unit) \<times> 'w state" where
  \<comment> \<open>lines 212 to 219\<close>
  "clean_body_issue sys a base_ref b s =
     (if check_issue_closure a then
        (case issue_id_from_branch b of
           None \<Rightarrow> (Inr (), print (''[SKIP] '' @ b @
                                   '' (no issue id prefix for closure check)'') s)
         | Some issue_id \<Rightarrow>
             (case base_has_issue_closure sys base_ref issue_id s of
                (Inl e, s1) \<Rightarrow> (Inl e, s1)
              | (Inr closed, s1) \<Rightarrow>
                  if \<not> closed
                  then (Inr (), print (''[KEEP] '' @ b @ '' (no issue-closure marker on '' @
                                       base_ref @ '' for #'' @ issue_id @ '')'') s1)
                  else clean_body_tip sys a base_ref b s1))
      else clean_body_tip sys a base_ref b s)"

definition clean_body_upstream ::
  "'w system \<Rightarrow> clean_args \<Rightarrow> string \<Rightarrow> string \<Rightarrow> 'w state \<Rightarrow> (exc + unit) \<times> 'w state" where
  \<comment> \<open>lines 206 to 210\<close>
  "clean_body_upstream sys a base_ref b s =
     (if check_upstream_missing a then
        (case upstream_for sys b s of
           (Inl e, s1) \<Rightarrow> (Inl e, s1)
         | (Inr up, s1) \<Rightarrow>
             if (case up of None \<Rightarrow> True
                 | Some u \<Rightarrow> u = [] \<or> \<not> startswith u (remote a @ ''/''))
             then (Inr (), print (''[SKIP] '' @ b @ '' (local-only or non-'' @ remote a @
                                  '' upstream)'') s1)
             else clean_body_issue sys a base_ref b s1)
      else clean_body_issue sys a base_ref b s)"

definition clean_body ::
  "'w system \<Rightarrow> clean_args \<Rightarrow> string set \<Rightarrow> string set \<Rightarrow> string \<Rightarrow> string \<Rightarrow> string \<Rightarrow>
   'w state \<Rightarrow> (exc + unit) \<times> 'w state" where
  \<comment> \<open>lines 194 to 204\<close>
  "clean_body sys a protected critical cur base_ref b s =
     (let b_lc = lower b in
      if b = cur then (Inr (), print (''[SKIP] '' @ b @ '' (current)'') s)
      else if b_lc \<in> protected then (Inr (), print (''[SKIP] '' @ b @ '' (protected)'') s)
      else if b_lc \<in> critical then (Inr (), print (''[SKIP] '' @ b @ '' (critical)'') s)
      else clean_body_upstream sys a base_ref b s)"

fun clean_loop ::
  "'w system \<Rightarrow> clean_args \<Rightarrow> string set \<Rightarrow> string set \<Rightarrow> string \<Rightarrow> string \<Rightarrow> string list \<Rightarrow>
   'w state \<Rightarrow> (exc + unit) \<times> 'w state" where
  \<comment> \<open>\<open>for b in branches\<close>, line 193\<close>
  "clean_loop sys a protected critical cur base_ref [] s = (Inr (), s)"
| "clean_loop sys a protected critical cur base_ref (b # bs) s =
     (case clean_body sys a protected critical cur base_ref b s of
        (Inl e, s') \<Rightarrow> (Inl e, s')
      | (Inr u, s') \<Rightarrow> clean_loop sys a protected critical cur base_ref bs s')"

definition clean_enter :: "'w system \<Rightarrow> clean_args \<Rightarrow> 'w state \<Rightarrow> 'w state" where
  \<comment> \<open>lines 176 to 179: \<open>os.chdir\<close> and the optional fetch, whose result is dropped\<close>
  "clean_enter sys a s =
     (let s1 = chdir (repo a) s in
      if fetch a then snd (run sys [''git'', ''fetch'', remote a, ''--prune''] False s1) else s1)"

definition clean_try ::
  "'w system \<Rightarrow> clean_args \<Rightarrow> 'w state \<Rightarrow> (exc + string \<times> string list) \<times> 'w state" where
  \<comment> \<open>the body of the \<open>try\<close>, lines 175 to 182\<close>
  "clean_try sys a s =
     (case ensure_git_repo sys (repo a) s of
        (Inl e, s1) \<Rightarrow> (Inl e, s1)
      | (Inr u, s1) \<Rightarrow>
          (case current_branch sys (clean_enter sys a s1) of
             (Inl e, s2) \<Rightarrow> (Inl e, s2)
           | (Inr cur, s2) \<Rightarrow>
               (case local_branches sys s2 of
                  (Inl e, s3) \<Rightarrow> (Inl e, s3)
                | (Inr branches, s3) \<Rightarrow> (Inr (cur, branches), s3))))"

definition clean :: "'w system \<Rightarrow> env \<Rightarrow> clean_args \<Rightarrow> 'w state \<Rightarrow> (exc + unit) \<times> 'w state" where
  "clean sys env a s =
     (let protected = clean_protected env a; critical = clean_critical env a in
      case clean_try sys a s of
        (Inl (RuntimeError msg), s1) \<Rightarrow> (Inl (Exit 2), echo_err msg s1)
      | (Inl (Exit code), s1) \<Rightarrow> (Inl (Exit code), s1)
      | (Inr (cur, branches), s1) \<Rightarrow>
          (let base_ref = base a in
           case run sys [''git'', ''rev-parse'', ''--verify'', ''--quiet'', base_ref] False s1 of
             (Inl e, s2) \<Rightarrow> (Inl e, s2)
           | (Inr res, s2) \<Rightarrow>
               if res = []
               then (Inl (Exit 2), echo_err (''Base ref not found: '' @ base_ref) s2)
               else clean_loop sys a protected critical cur base_ref branches s2))"

section \<open>The whole process\<close>

text \<open>
  A run first executes the module (the three checks of \<open>module_init\<close>); then typer
  validates the option \<open>--repo\<close>, declared with \<open>exists=True\<close>, and leaves with a
  usage error (exit code 2) when the path does not exist; then it calls \<open>clean\<close>. An
  exception that nothing catches ends the Python process with status 1, \<open>typer.Exit\<close>
  with its code, and a normal return with 0.
\<close>

definition program :: "'w system \<Rightarrow> env \<Rightarrow> clean_args \<Rightarrow> 'w state \<Rightarrow> (exc + unit) \<times> 'w state" where
  "program sys env a s =
     (case module_init env of
        Inl e \<Rightarrow> (Inl e, s)
      | Inr u \<Rightarrow>
          if \<not> path_exists sys (cwd s) (repo a) (world s) then (Inl (Exit 2), s)
          else clean sys env a s)"

fun exit_status :: "exc + unit \<Rightarrow> int" where
  "exit_status (Inr u) = 0"
| "exit_status (Inl (Exit code)) = code"
| "exit_status (Inl (RuntimeError msg)) = 1"

section \<open>A small repository for concrete runs\<close>

text \<open>
  A hand-made outside world on which the model can be run: the local branches with their
  tips, the checked-out branch, the commits contained in the base, the heads of the remote
  (\<open>None\<close> when the remote cannot be reached), the issue ids for which the log search
  finds a commit, the references that resolve, the directories that exist, command lines
  that are made to fail, and the number of fetches done so far. The deletion of a branch
  and \<open>git fetch\<close> change it.
\<close>

record toy =
  heads :: "(string \<times> string) list"
  checked_out :: string
  in_base :: "string list"
  remote_heads :: "string list option"
  closed_issues :: "string list"
  refs :: "string list"
  dirs :: "string list"
  broken :: "string list list"
  fetches :: nat

definition ok :: "string \<Rightarrow> proc" where
  "ok text = \<lparr>returncode = 0, stdout = text, stderr = []\<rparr>"

definition failed :: "int \<Rightarrow> string \<Rightarrow> proc" where
  "failed rc msg = \<lparr>returncode = rc, stdout = [], stderr = msg\<rparr>"

fun is_branch_delete :: "string list \<Rightarrow> bool" where
  \<comment> \<open>the command lines that \<open>delete_branch\<close> builds\<close>
  "is_branch_delete [g, br, flag, b] =
     (g = ''git'' \<and> br = ''branch'' \<and> (flag = ''-d'' \<or> flag = ''-D''))"
| "is_branch_delete cmd = False"

definition toy_answer :: "string list \<Rightarrow> toy \<Rightarrow> proc" where
  "toy_answer cmd w =
     (if cmd \<in> set (broken w) then failed 128 ''fatal: broken''
      else if cmd = [''git'', ''branch'', ''--show-current''] then ok (checked_out w @ [CHR 0x0A])
      else if take 2 cmd = [''git'', ''for-each-ref'']
        then ok (concat (map (\<lambda>(n, t). n @ [CHR 0x0A]) (heads w)))
      else if take 3 cmd = [''git'', ''rev-parse'', ''--verify'']
        then (if cmd ! 4 \<in> set (refs w) then ok (''0badc0de0badc0de'' @ [CHR 0x0A])
              else failed 1 [])
      else if take 3 cmd = [''git'', ''rev-parse'', ''--abbrev-ref'']
        then failed 128 ''fatal: no upstream configured''
      else if take 2 cmd = [''git'', ''rev-parse'']
        then (case map_of (heads w) (cmd ! 2) of
                Some t \<Rightarrow> ok (t @ [CHR 0x0A])
              | None \<Rightarrow> failed 128 ''fatal: ambiguous argument'')
      else if take 2 cmd = [''git'', ''merge-base'']
        then (if cmd ! 3 \<in> set (in_base w) then ok [] else failed 1 [])
      else if take 2 cmd = [''git'', ''ls-remote'']
        then (case remote_heads w of
                None \<Rightarrow> failed 128 ''fatal: unable to access the remote''
              | Some hs \<Rightarrow> if cmd ! 4 \<in> set hs
                           then ok (''0badc0de'' @ [CHR 0x09] @ ''refs/heads/'' @ cmd ! 4)
                           else ok [])
      else if take 2 cmd = [''git'', ''log'']
        then (if cmd ! 4 \<in> set (map (\<lambda>i. ''--grep='' @ closure_pattern i) (closed_issues w))
              then ok ''commit 0badc0de'' else ok [])
      else ok [])"

definition toy_run :: "string \<Rightarrow> string list \<Rightarrow> toy \<Rightarrow> proc \<times> toy" where
  "toy_run d cmd w =
     (if is_branch_delete cmd \<and> cmd \<notin> set (broken w)
      then (ok [], w\<lparr>heads := filter (\<lambda>(n, t). n \<noteq> cmd ! 3) (heads w)\<rparr>)
      else if take 2 cmd = [''git'', ''fetch''] \<and> cmd \<notin> set (broken w)
      then (ok [], w\<lparr>fetches := Suc (fetches w)\<rparr>)
      else (toy_answer cmd w, w))"

definition up_to_fetches :: "toy \<Rightarrow> toy \<Rightarrow> bool" where
  \<comment> \<open>the same repository, whatever the number of fetches\<close>
  "up_to_fetches v w \<longleftrightarrow> (\<exists>n. w = v\<lparr>fetches := n\<rparr>)"

definition toy_git :: "toy system" where
  "toy_git = \<lparr>subprocess_run = toy_run,
              is_dir = (\<lambda>d p w. p \<in> set (dirs w)),
              path_exists = (\<lambda>d p w. p \<in> set (dirs w))\<rparr>"

definition toy_repo :: toy where
  \<comment> \<open>on \<open>Feature-X\<close>; \<open>dev\<close> is the base and contains the tips of \<open>feature-x\<close> and
      \<open>42-fix-bug\<close>, not that of \<open>wip\<close>; the remote cannot be reached\<close>
  "toy_repo =
     \<lparr>heads = [(''Feature-X'', ''1111111111''), (''dev'', ''2222222222''),
                (''feature-x'', ''3333333333''), (''42-fix-bug'', ''5555555555''),
                (''wip'', ''6666666666'')],
      checked_out = ''Feature-X'',
      in_base = [''2222222222'', ''3333333333'', ''5555555555''],
      remote_heads = None,
      closed_issues = [],
      refs = [''dev''],
      dirs = [''/srv/repo'', ''/srv/repo/.git'', ''/srv/empty''],
      broken = [],
      fetches = 0\<rparr>"

definition no_env :: env where
  \<comment> \<open>none of the three variables is set\<close>
  "no_env = (\<lambda>name. None)"

definition toy_args :: clean_args where
  \<comment> \<open>\<open>clean --repo /srv/repo\<close> with nothing else given\<close>
  "toy_args = default_args no_env ''/srv/repo''"

definition blank_env :: env where
  \<comment> \<open>\<open>PROTECTED_BRANCHES\<close> is set to a comma between blanks\<close>
  "blank_env = (\<lambda>name. if name = ''PROTECTED_BRANCHES'' then Some '' , '' else None)"

definition accent_env :: env where
  \<comment> \<open>\<open>PROTECTED_BRANCHES\<close> is the one name \<open>e t e\<close>, both e with acute accent\<close>
  "accent_env =
     (\<lambda>name. if name = ''PROTECTED_BRANCHES'' then Some [CHR 0xE9, CHR ''t'', CHR 0xE9]
             else None)"

definition toy_start :: "toy state" where
  \<comment> \<open>a process started in the repository\<close>
  "toy_start = fresh ''/srv/repo'' toy_repo"

section \<open>Vocabulary of the properties\<close>

definition matches_issue_pattern :: "string \<Rightarrow> bool" where
  \<comment> \<open>the pattern in words: some position \<open>n \<ge> 1\<close> has only digits before it, a
      separator \<open>-\<close> or \<open>_\<close> at it, and after it at least one more character (the first
      of them not a newline, which \<open>.\<close> does not match)\<close>
  "matches_issue_pattern b \<longleftrightarrow>
     (\<exists>n \<in> {1 ..< length b}.
        (\<forall>d \<in> set (take n b). is_digit d) \<and>
        (b ! n = CHR ''-'' \<or> b ! n = CHR ''_'') \<and>
        n + 1 < length b \<and> b ! (n + 1) \<noteq> CHR 0x0A)"

definition tagged :: "string \<Rightarrow> string \<Rightarrow> bool" where
  \<comment> \<open>the line starts with the tag and a blank\<close>
  "tagged tag line \<longleftrightarrow> startswith line (tag @ '' '')"

definition status_line :: "string \<Rightarrow> string \<Rightarrow> string \<Rightarrow> bool" where
  \<comment> \<open>the line is the tag, a blank, the branch name, a blank and a reason in parentheses\<close>
  "status_line tag b line \<longleftrightarrow>
     startswith line (tag @ '' '' @ b @ '' ('') \<and> line \<noteq> [] \<and> last line = CHR '')''"

definition dry_line :: "bool \<Rightarrow> string \<Rightarrow> string" where
  \<comment> \<open>the line of a deletion that dry-run mode does not execute\<close>
  "dry_line forced b = ''[DRY] git branch '' @ (if forced then ''-D'' else ''-d'') @ '' '' @ b"

definition branch_group :: "clean_args \<Rightarrow> string \<Rightarrow> string list \<Rightarrow> bool" where
  \<comment> \<open>the lines of one branch: a status line tagged \<open>[SKIP]\<close> or \<open>[KEEP]\<close>, or one
      tagged \<open>[DEL ]\<close> which in dry-run mode, and only then, is followed by its
      \<open>[DRY]\<close> line\<close>
  "branch_group a b g \<longleftrightarrow>
     (case g of
        [l] \<Rightarrow> status_line ''[SKIP]'' b l \<or> status_line ''[KEEP]'' b l \<or>
               (status_line ''[DEL ]'' b l \<and> \<not> dry_run a)
      | [l, l'] \<Rightarrow> dry_run a \<and> status_line ''[DEL ]'' b l \<and> l' = dry_line (force a) b
      | _ \<Rightarrow> False)"

fun reports :: "clean_args \<Rightarrow> string list \<Rightarrow> string list \<Rightarrow> bool" where
  \<comment> \<open>the lines are the groups of the branches, one group per branch, in the order of the
      branches, and nothing else\<close>
  "reports a [] ls = (ls = [])"
| "reports a (b # bs) [] = False"
| "reports a (b # bs) (l # ls) =
     (if status_line ''[SKIP]'' b l \<or> status_line ''[KEEP]'' b l then reports a bs ls
      else if status_line ''[DEL ]'' b l then
        (if dry_run a then
           (case ls of
              [] \<Rightarrow> False
            | l' # ls' \<Rightarrow> l' = dry_line (force a) b \<and> reports a bs ls')
         else reports a bs ls)
      else False)"

definition claimed_issue_pattern :: "string \<Rightarrow> bool" where
  \<comment> \<open>the pattern with nothing required after the separator: some position \<open>n \<ge> 1\<close>
      has only digits before it and a separator \<open>-\<close> or \<open>_\<close> at it\<close>
  "claimed_issue_pattern b \<longleftrightarrow>
     (\<exists>n \<in> {1 ..< length b}.
        (\<forall>d \<in> set (take n b). is_digit d) \<and> (b ! n = CHR ''-'' \<or> b ! n = CHR ''_''))"

definition same_answers :: "'v system \<Rightarrow> 'w system \<Rightarrow> ('v \<Rightarrow> 'w \<Rightarrow> bool) \<Rightarrow> bool" where
  \<comment> \<open>in worlds related by \<open>R\<close> the two systems give the same answer to every question
      about a path and to every command that is not the deletion of a branch, and such a
      command leads to related worlds again\<close>
  "same_answers sys1 sys2 R \<longleftrightarrow>
     (\<forall>d cmd v w. R v w \<and> \<not> is_branch_delete cmd \<longrightarrow>
        fst (subprocess_run sys1 d cmd v) = fst (subprocess_run sys2 d cmd w) \<and>
        R (snd (subprocess_run sys1 d cmd v)) (snd (subprocess_run sys2 d cmd w))) \<and>
     (\<forall>d p v w. R v w \<longrightarrow>
        is_dir sys1 d p v = is_dir sys2 d p w \<and>
        path_exists sys1 d p v = path_exists sys2 d p w)"

definition alike :: "('v \<Rightarrow> 'w \<Rightarrow> bool) \<Rightarrow> 'v state \<Rightarrow> 'w state \<Rightarrow> bool" where
  \<comment> \<open>two states of a run that differ at most in the outside world, up to \<open>R\<close>\<close>
  "alike R s t \<longleftrightarrow>
     cwd s = cwd t \<and> out s = out t \<and> err s = err t \<and> calls s = calls t \<and>
     R (world s) (world t)"

definition agrees :: "('v \<Rightarrow> 'w \<Rightarrow> bool) \<Rightarrow> 'r \<times> 'v state \<Rightarrow> 'r \<times> 'w state \<Rightarrow> bool" where
  \<comment> \<open>the same result, in states that are alike\<close>
  "agrees R x y \<longleftrightarrow> fst x = fst y \<and> alike R (snd x) (snd y)"

section \<open>Facts used throughout\<close>

lemmas string_defs = strip_def lower_def lower_char_def upper_letters_def lower_letters_def
  is_space_def startswith_def
  is_digit_def splitlines_def is_linebreak_def re_escape_def closure_pattern_def

lemmas toy_defs = toy_git_def toy_run_def toy_answer_def toy_repo_def ok_def failed_def
  toy_args_def default_args_def no_env_def blank_env_def accent_env_def getenv_def branch_names_def PROTECTED_def
  CRITICAL_def BASE_BRANCH_FOR_COMMIT_CHECK_def toy_start_def

lemma toy_answer_fetches: "toy_answer cmd (v\<lparr>fetches := n\<rparr>) = toy_answer cmd v"
  by (simp add: toy_answer_def)

lemma strip_Nil: "strip [] = []"
  by (simp add: strip_def)

lemma sep_not_digit: "c = CHR ''-'' \<or> c = CHR ''_'' \<Longrightarrow> \<not> is_digit c"
  by (auto simp: is_digit_def)

lemma re_escape_digits: "\<forall>c \<in> set ds. is_digit c \<Longrightarrow> re_escape ds = ds"
proof (induction ds)
  case Nil
  show ?case by (simp add: re_escape_def)
next
  case (Cons c ds)
  then have "re_escape ds = ds" and d: "is_digit c" by simp_all
  moreover have "re_escape (c # ds) =
      (if c \<in> set (''()[]{}?*+-|^$.&~# '' @
                    [CHR 0x5C, CHR 0x09, CHR 0x0A, CHR 0x0D, CHR 0x0B, CHR 0x0C])
       then [CHR 0x5C, c] else [c]) @ re_escape ds"
    by (simp add: re_escape_def)
  moreover have "c \<notin> set (''()[]{}?*+-|^$.&~# '' @
                           [CHR 0x5C, CHR 0x09, CHR 0x0A, CHR 0x0D, CHR 0x0B, CHR 0x0C])"
    using d by (auto simp: is_digit_def)
  ultimately show ?case by simp
qed

text \<open>
  \<open>issue_id_from_branch\<close> answers exactly on the names that match the pattern, with the
  leading digits.
\<close>

lemma issue_id_of_match:
  assumes "matches_issue_pattern b"
  shows "issue_id_from_branch b = Some (takeWhile is_digit b) \<and> takeWhile is_digit b \<noteq> []"
proof -
  from assms obtain n where n: "1 \<le> n" "n < length b"
    and digs: "\<forall>d \<in> set (take n b). is_digit d"
    and sep: "b ! n = CHR ''-'' \<or> b ! n = CHR ''_''"
    and more: "n + 1 < length b" "b ! (n + 1) \<noteq> CHR 0x0A"
    by (auto simp: matches_issue_pattern_def)
  have tw: "takeWhile is_digit b = take n b"
  proof (rule takeWhile_eq_take_P_nth)
    fix i assume "i < n" "i < length b"
    then have "b ! i \<in> set (take n b)"
      by (metis in_set_conv_nth length_take min_less_iff_conj nth_take)
    with digs show "is_digit (b ! i)" by blast
  next
    show "\<not> is_digit (b ! n)" using sep by (rule sep_not_digit)
  qed
  have dw: "dropWhile is_digit b = drop n b"
    using tw n by (simp add: dropWhile_eq_drop)
  have "drop n b = b ! n # b ! (n + 1) # drop (n + 2) b"
    using n more by (metis Cons_nth_drop_Suc Suc_eq_plus1 add_2_eq_Suc')
  with dw tw n sep more show ?thesis
    by (auto simp: issue_id_from_branch_def Let_def)
qed

lemma match_of_issue_id:
  assumes "issue_id_from_branch b = Some ds"
  shows "matches_issue_pattern b"
proof -
  from assms obtain sep c rest where dw: "dropWhile is_digit b = sep # c # rest"
    and ne: "takeWhile is_digit b \<noteq> []"
    and sep: "sep = CHR ''-'' \<or> sep = CHR ''_''" and c: "c \<noteq> CHR 0x0A"
    by (auto simp: issue_id_from_branch_def Let_def split: list.splits if_splits)
  define n where "n = length (takeWhile is_digit b)"
  have b: "b = takeWhile is_digit b @ sep # c # rest"
    using dw by (metis takeWhile_dropWhile_id)
  have len: "length b = n + 2 + length rest"
    by (subst b) (simp add: n_def)
  have n1: "1 \<le> n" using ne by (simp add: n_def Suc_le_eq)
  have tk: "take n b = takeWhile is_digit b"
    by (subst b) (simp add: n_def)
  have at: "b ! n = sep" "b ! (n + 1) = c"
    by (subst b, simp add: n_def nth_append)+
  have "\<forall>d \<in> set (take n b). is_digit d"
    unfolding tk by (auto dest: set_takeWhileD)
  with n1 len at sep c show ?thesis
    unfolding matches_issue_pattern_def by (intro bexI [of _ n]) auto
qed

lemma issue_id_None_iff: "issue_id_from_branch b = None \<longleftrightarrow> \<not> matches_issue_pattern b"
  using issue_id_of_match [of b] match_of_issue_id [of b]
  by (cases "issue_id_from_branch b") auto

section \<open>What the helpers do to the state\<close>

text \<open>No helper writes to standard output, except \<open>delete_branch\<close> in dry-run mode.\<close>

lemma spawn_state:
  "spawn sys cmd s = (p, s') \<Longrightarrow>
     out s' = out s \<and> err s' = err s \<and> cwd s' = cwd s \<and> calls s' = calls s @ [cmd] \<and>
     world s' = snd (subprocess_run sys (cwd s) cmd (world s))"
  by (auto simp: spawn_def split: prod.splits)

lemma run_state:
  "run sys cmd check s = (r, s') \<Longrightarrow>
     out s' = out s \<and> err s' = err s \<and> cwd s' = cwd s \<and> calls s' = calls s @ [cmd] \<and>
     world s' = snd (subprocess_run sys (cwd s) cmd (world s))"
  by (auto simp: run_def spawn_def split: prod.splits if_splits)

lemma run_out: "run sys cmd check s = (r, s') \<Longrightarrow> out s' = out s"
  by (simp add: run_state)

lemma tip_sha_out: "tip_sha sys b s = (r, s') \<Longrightarrow> out s' = out s"
  by (auto simp: tip_sha_def dest: run_out)

lemma commit_in_base_out: "commit_in_base sys c base_ref s = (r, s') \<Longrightarrow> out s' = out s"
  by (auto simp: commit_in_base_def split: prod.splits dest: spawn_state)

lemma remote_branch_exists_out: "remote_branch_exists sys rm b s = (r, s') \<Longrightarrow> out s' = out s"
  by (auto simp: remote_branch_exists_def split: prod.splits sum.splits dest: run_out)

lemma upstream_for_out: "upstream_for sys b s = (r, s') \<Longrightarrow> out s' = out s"
  by (auto simp: upstream_for_def split: prod.splits sum.splits dest: run_out)

lemma base_has_issue_closure_out:
  "base_has_issue_closure sys base_ref i s = (r, s') \<Longrightarrow> out s' = out s"
  by (auto simp: base_has_issue_closure_def split: prod.splits sum.splits dest: run_out)

lemma delete_branch_out:
  "delete_branch sys b f dry s = (r, s') \<Longrightarrow>
     out s' = out s @ (if dry then [''[DRY] '' @ join '' '' [''git'', ''branch'',
                                       if f then ''-D'' else ''-d'', b]] else [])"
  by (auto simp: delete_branch_def print_def Let_def split: prod.splits sum.splits if_splits
      dest: run_out)

text \<open>The only exception that \<open>run\<close> raises is \<open>RuntimeError\<close>.\<close>

lemma run_raises: "fst (run sys cmd check s) = Inl e \<Longrightarrow> \<exists>msg. e = RuntimeError msg"
  by (auto simp: run_def split: prod.splits if_splits)

lemma run_checked_fails:
  "(\<exists>e. fst (run sys cmd True s) = Inl e) \<longleftrightarrow> returncode (fst (spawn sys cmd s)) \<noteq> 0"
  by (auto simp: run_def split: prod.splits)

lemma run_unchecked:
  "fst (run sys cmd False s) = Inr (strip (stdout (fst (spawn sys cmd s))))"
  by (simp add: run_def split: prod.splits)

lemma local_branches_fails:
  "(\<exists>e. fst (local_branches sys s) = Inl e) \<longleftrightarrow>
     (\<exists>e. fst (run sys [''git'', ''for-each-ref'', ''--format=%(refname:short)'',
                         ''refs/heads''] True s) = Inl e)"
  by (auto simp: local_branches_def split: prod.splits sum.splits)

lemma local_branches_raises:
  "fst (local_branches sys s) = Inl e \<Longrightarrow> \<exists>msg. e = RuntimeError msg"
  using run_raises [of sys "[''git'', ''for-each-ref'', ''--format=%(refname:short)'',
      ''refs/heads'']" True s e]
  by (auto simp: local_branches_def split: prod.splits sum.splits)

text \<open>
  The lines that an iteration writes for a branch form the group of that branch, and
  \<open>reports\<close> reads a group as the lines of one branch.
\<close>

lemma startswith_append: "startswith l (x @ y) \<Longrightarrow> startswith l x"
proof -
  assume "startswith l (x @ y)"
  then have "take (length (x @ y)) l = x @ y"
    by (simp add: startswith_def)
  then have "take (length x) (take (length (x @ y)) l) = take (length x) (x @ y)"
    by simp
  then show ?thesis
    by (simp add: startswith_def take_take min_def)
qed

lemma status_line_tagged: "status_line tag b l \<Longrightarrow> tagged tag l"
proof -
  assume "status_line tag b l"
  then have "startswith l ((tag @ '' '') @ (b @ '' (''))"
    by (simp add: status_line_def)
  then have "startswith l (tag @ '' '')"
    by (rule startswith_append)
  then show ?thesis by (simp add: tagged_def)
qed

lemma del_not_skip:
  assumes "tagged ''[DEL ]'' l"
  shows "\<not> tagged ''[SKIP]'' l \<and> \<not> tagged ''[KEEP]'' l"
proof -
  have len: "length (''[SKIP]'' @ '' '') = length (''[DEL ]'' @ '' '')"
    "length (''[KEEP]'' @ '' '') = length (''[DEL ]'' @ '' '')"
    by simp_all
  from assms have "take (length (''[DEL ]'' @ '' '')) l = ''[DEL ]'' @ '' ''"
    unfolding tagged_def startswith_def .
  then have "take (length (''[SKIP]'' @ '' '')) l \<noteq> ''[SKIP]'' @ '' ''"
    and "take (length (''[KEEP]'' @ '' '')) l \<noteq> ''[KEEP]'' @ '' ''"
    unfolding len by simp_all
  then show ?thesis
    unfolding tagged_def startswith_def by (rule conjI)
qed

lemma del_line_not_skip:
  "status_line ''[DEL ]'' b l \<Longrightarrow> \<not> status_line ''[SKIP]'' b l \<and> \<not> status_line ''[KEEP]'' b l"
  using del_not_skip [of l] status_line_tagged by blast

lemma startswith_self: "startswith (x @ y) x"
  by (simp add: startswith_def)

lemma status_line_I: "status_line tag b (tag @ '' '' @ b @ '' ('' @ reason @ '')'')"
proof -
  have "startswith ((tag @ '' '' @ b @ '' ('') @ (reason @ '')'')) (tag @ '' '' @ b @ '' ('')"
    by (rule startswith_self)
  then show ?thesis
    by (simp add: status_line_def)
qed

lemma reports_single:
  assumes "status_line ''[SKIP]'' b l \<or> status_line ''[KEEP]'' b l \<or>
           (status_line ''[DEL ]'' b l \<and> \<not> dry_run a)"
  shows "reports a (b # bs) (l # rest) = reports a bs rest"
  using assms by auto

lemma reports_pair:
  assumes "dry_run a" and "status_line ''[DEL ]'' b l"
  shows "reports a (b # bs) (l # dry_line (force a) b # rest) = reports a bs rest"
  using assms del_line_not_skip [of b l] by simp

lemma reports_group:
  assumes "branch_group a b g"
  shows "reports a (b # bs) (g @ rest) = reports a bs rest"
proof (cases g)
  case Nil
  with assms show ?thesis by (simp add: branch_group_def)
next
  case (Cons l g')
  show ?thesis
  proof (cases g')
    case Nil
    with Cons assms show ?thesis
      by (simp only: append_Cons append_Nil reports_single branch_group_def list.case)
  next
    case (Cons l' g'')
    note g' = this
    show ?thesis
    proof (cases g'')
      case Nil
      with g' \<open>g = l # g'\<close> assms
      have "dry_run a" "status_line ''[DEL ]'' b l" "l' = dry_line (force a) b"
        by (simp_all add: branch_group_def)
      with Nil g' \<open>g = l # g'\<close> show ?thesis
        by (simp only: append_Cons append_Nil reports_pair)
    next
      case (Cons x xs)
      with g' \<open>g = l # g'\<close> assms show ?thesis by (simp add: branch_group_def)
    qed
  qed
qed


lemma skip_group: "branch_group a b [''[SKIP] '' @ b @ '' ('' @ reason @ '')'']"
  using status_line_I [of "''[SKIP]''" b reason] by (simp add: branch_group_def)

lemma keep_group: "branch_group a b [''[KEEP] '' @ b @ '' ('' @ reason @ '')'']"
  using status_line_I [of "''[KEEP]''" b reason] by (simp add: branch_group_def)

lemma del_group:
  "branch_group a b
     (if dry_run a then [''[DEL ] '' @ b @ '' ('' @ reason @ '')'', dry_line (force a) b]
      else [''[DEL ] '' @ b @ '' ('' @ reason @ '')''])"
  using status_line_I [of "''[DEL ]''" b reason] by (simp add: branch_group_def)

lemma body_tip_group:
  assumes "clean_body_tip sys a base_ref b s = (Inr u, s')"
  shows "\<exists>g. out s' = out s @ g \<and> branch_group a b g"
proof -
  obtain r1 s1 where t: "tip_sha sys b s = (r1, s1)"
    by (cases "tip_sha sys b s")
  with assms obtain tip where r1: "r1 = Inr tip"
    by (cases r1) (simp_all add: clean_body_tip_def)
  obtain inb s2 where c: "commit_in_base sys tip base_ref s1 = (inb, s2)"
    by (cases "commit_in_base sys tip base_ref s1")
  have o2: "out s2 = out s"
    using t c by (simp add: tip_sha_out [OF t] commit_in_base_out [OF c])
  show ?thesis
  proof (cases inb)
    case False
    with assms t r1 c have "s' = print (''[KEEP] '' @ b @ '' (tip '' @ take 8 tip @
        '' NOT in '' @ base_ref @ '')'') s2"
      by (simp add: clean_body_tip_def)
    then have "out s' = out s @ [''[KEEP] '' @ b @ '' (tip '' @ take 8 tip @
        '' NOT in '' @ base_ref @ '')'']"
      by (simp add: print_def o2)
    moreover have "branch_group a b [''[KEEP] '' @ b @ '' (tip '' @ take 8 tip @
        '' NOT in '' @ base_ref @ '')'']"
      using keep_group [of a b "''tip '' @ take 8 tip @ '' NOT in '' @ base_ref"] by simp
    ultimately show ?thesis by blast
  next
    case True
    obtain r3 s3 where rm: "(if check_remote_missing a
        then remote_branch_exists sys (remote a) b s2 else (Inr False, s2)) = (r3, s3)"
      by (cases "if check_remote_missing a
        then remote_branch_exists sys (remote a) b s2 else (Inr False, s2)")
    have o3: "out s3 = out s"
      using rm o2 by (auto split: if_splits dest: remote_branch_exists_out)
    from assms t r1 c True rm obtain on_remote where r3: "r3 = Inr on_remote"
      by (cases r3) (simp_all add: clean_body_tip_def)
    show ?thesis
    proof (cases on_remote)
      case True
      with assms t r1 c \<open>inb\<close> rm r3 have "s' = print (''[KEEP] '' @ b @ '' (exists on '' @
          remote a @ '')'') s3"
        by (simp add: clean_body_tip_def)
      then have "out s' = out s @ [''[KEEP] '' @ b @ '' (exists on '' @ remote a @ '')'']"
        by (simp add: print_def o3)
      moreover have "branch_group a b [''[KEEP] '' @ b @ '' (exists on '' @ remote a @
          '')'']"
        using keep_group [of a b "''exists on '' @ remote a"] by simp
      ultimately show ?thesis by blast
    next
      case False
      let ?del = "''[DEL ] '' @ b @ '' (tip '' @ take 8 tip @ '' is in '' @ base_ref @ '')''"
      let ?dry = "''[DRY] '' @ join '' '' [''git'', ''branch'',
                    if force a then ''-D'' else ''-d'', b]"
      from assms t r1 c \<open>inb\<close> rm r3 False
      have "delete_branch sys b (force a) (dry_run a) (print ?del s3) = (Inr u, s')"
        by (simp add: clean_body_tip_def)
      then have "out s' = out (print ?del s3) @ (if dry_run a then [?dry] else [])"
        by (rule delete_branch_out)
      then have o: "out s' = out s @ (if dry_run a then [?del, ?dry] else [?del])"
        by (simp add: print_def o3)
      have "branch_group a b (if dry_run a then [?del, ?dry] else [?del])"
        using del_group [of a b "''tip '' @ take 8 tip @ '' is in '' @ base_ref"]
        by (cases "dry_run a"; cases "force a") (simp_all add: dry_line_def)
      with o show ?thesis by blast
    qed
  qed
qed

lemma body_issue_group:
  assumes "clean_body_issue sys a base_ref b s = (Inr u, s')"
  shows "\<exists>g. out s' = out s @ g \<and> branch_group a b g"
proof (cases "check_issue_closure a")
  case False
  with assms show ?thesis by (simp add: clean_body_issue_def body_tip_group)
next
  case True
  note on = this
  show ?thesis
  proof (cases "issue_id_from_branch b")
    case None
    with assms on have "s' = print (''[SKIP] '' @ b @
        '' (no issue id prefix for closure check)'') s"
      by (simp add: clean_body_issue_def)
    then have "out s' = out s @ [''[SKIP] '' @ b @ '' (no issue id prefix for closure check)'']"
      by (simp add: print_def)
    moreover have "branch_group a b
        [''[SKIP] '' @ b @ '' (no issue id prefix for closure check)'']"
      using skip_group [of a b "''no issue id prefix for closure check''"] by simp
    ultimately show ?thesis by blast
  next
    case (Some issue_id)
    obtain r1 s1 where h: "base_has_issue_closure sys base_ref issue_id s = (r1, s1)"
      by (cases "base_has_issue_closure sys base_ref issue_id s")
    have o1: "out s1 = out s"
      using h by (rule base_has_issue_closure_out)
    from assms on Some h obtain closed where r1: "r1 = Inr closed"
      by (cases r1) (simp_all add: clean_body_issue_def)
    show ?thesis
    proof (cases closed)
      case True
      with assms on Some h r1 have "clean_body_tip sys a base_ref b s1 = (Inr u, s')"
        by (simp add: clean_body_issue_def)
      from body_tip_group [OF this] o1 show ?thesis by simp
    next
      case False
      with assms on Some h r1 have "s' = print (''[KEEP] '' @ b @
          '' (no issue-closure marker on '' @ base_ref @ '' for #'' @ issue_id @ '')'') s1"
        by (simp add: clean_body_issue_def)
      then have "out s' = out s @ [''[KEEP] '' @ b @ '' (no issue-closure marker on '' @
          base_ref @ '' for #'' @ issue_id @ '')'']"
        by (simp add: print_def o1)
      moreover have "branch_group a b [''[KEEP] '' @ b @
          '' (no issue-closure marker on '' @ base_ref @ '' for #'' @ issue_id @ '')'']"
        using keep_group [of a b "''no issue-closure marker on '' @ base_ref @ '' for #'' @ issue_id"] by simp
      ultimately show ?thesis by blast
    qed
  qed
qed

lemma body_upstream_group:
  assumes "clean_body_upstream sys a base_ref b s = (Inr u, s')"
  shows "\<exists>g. out s' = out s @ g \<and> branch_group a b g"
proof (cases "check_upstream_missing a")
  case False
  with assms show ?thesis by (simp add: clean_body_upstream_def body_issue_group)
next
  case True
  obtain r1 s1 where h: "upstream_for sys b s = (r1, s1)"
    by (cases "upstream_for sys b s")
  have o1: "out s1 = out s"
    using h by (rule upstream_for_out)
  from assms True h obtain up where r1: "r1 = Inr up"
    by (cases r1) (simp_all add: clean_body_upstream_def)
  show ?thesis
  proof (cases "case up of None \<Rightarrow> True
                | Some u \<Rightarrow> u = [] \<or> \<not> startswith u (remote a @ ''/'')")
    case False
    with assms True h r1 have "clean_body_issue sys a base_ref b s1 = (Inr u, s')"
      by (simp add: clean_body_upstream_def)
    from body_issue_group [OF this] o1 show ?thesis by simp
  next
    case skip: True
    with assms True h r1 have "s' = print (''[SKIP] '' @ b @ '' (local-only or non-'' @
        remote a @ '' upstream)'') s1"
      by (simp add: clean_body_upstream_def)
    then have "out s' = out s @ [''[SKIP] '' @ b @ '' (local-only or non-'' @ remote a @
        '' upstream)'']"
      by (simp add: print_def o1)
    moreover have "branch_group a b [''[SKIP] '' @ b @ '' (local-only or non-'' @
        remote a @ '' upstream)'']"
      using skip_group [of a b "''local-only or non-'' @ remote a @ '' upstream''"] by simp
    ultimately show ?thesis by blast
  qed
qed

lemma body_group:
  assumes "clean_body sys a protected critical cur base_ref b s = (Inr u, s')"
  shows "\<exists>g. out s' = out s @ g \<and> branch_group a b g"
proof -
  consider "b = cur" | "b \<noteq> cur" "lower b \<in> protected"
    | "b \<noteq> cur" "lower b \<notin> protected" "lower b \<in> critical"
    | "b \<noteq> cur" "lower b \<notin> protected" "lower b \<notin> critical"
    by blast
  then show ?thesis
  proof cases
    case 1
    with assms have "out s' = out s @ [''[SKIP] '' @ b @ '' (current)'']"
      by (auto simp: clean_body_def print_def)
    moreover have "branch_group a b [''[SKIP] '' @ b @ '' (current)'']"
      using skip_group [of a b "''current''"] by simp
    ultimately show ?thesis by blast
  next
    case 2
    with assms have "out s' = out s @ [''[SKIP] '' @ b @ '' (protected)'']"
      by (auto simp: clean_body_def print_def)
    moreover have "branch_group a b [''[SKIP] '' @ b @ '' (protected)'']"
      using skip_group [of a b "''protected''"] by simp
    ultimately show ?thesis by blast
  next
    case 3
    with assms have "out s' = out s @ [''[SKIP] '' @ b @ '' (critical)'']"
      by (auto simp: clean_body_def print_def)
    moreover have "branch_group a b [''[SKIP] '' @ b @ '' (critical)'']"
      using skip_group [of a b "''critical''"] by simp
    ultimately show ?thesis by blast
  next
    case 4
    with assms have "clean_body_upstream sys a base_ref b s = (Inr u, s')"
      by (simp add: clean_body_def)
    then show ?thesis by (rule body_upstream_group)
  qed
qed

lemma loop_reports:
  "clean_loop sys a protected critical cur base_ref bs s = (Inr u, s') \<Longrightarrow>
     \<exists>ls. out s' = out s @ ls \<and> reports a bs ls"
proof (induction bs arbitrary: s)
  case Nil
  then show ?case by simp
next
  case (Cons b bs)
  obtain r1 s1 where h: "clean_body sys a protected critical cur base_ref b s = (r1, s1)"
    by (cases "clean_body sys a protected critical cur base_ref b s")
  with Cons.prems obtain u1 where r1: "r1 = Inr u1"
    by (cases r1) simp_all
  from h r1 obtain g where g: "out s1 = out s @ g" "branch_group a b g"
    using body_group by blast
  from Cons.prems h r1
  have "clean_loop sys a protected critical cur base_ref bs s1 = (Inr u, s')"
    by simp
  from Cons.IH [OF this] obtain ls where ls: "out s' = out s1 @ ls" "reports a bs ls"
    by blast
  have "out s' = out s @ (g @ ls)"
    using g ls by simp
  moreover have "reports a (b # bs) (g @ ls)"
    using g ls by (simp only: reports_group)
  ultimately show ?case by blast
qed

text \<open>
  Two systems that give the same answers take a dry run through states that are alike:
  every helper, and with them the loop, \<open>clean\<close> and the whole process, returns the same
  result in both.
\<close>

lemma alike_print: "alike R s t \<Longrightarrow> alike R (print l s) (print l t)"
  by (simp add: alike_def print_def)

lemma alike_echo_err: "alike R s t \<Longrightarrow> alike R (echo_err l s) (echo_err l t)"
  by (simp add: alike_def echo_err_def)

lemma alike_chdir: "alike R s t \<Longrightarrow> alike R (chdir p s) (chdir p t)"
  by (simp add: alike_def chdir_def)

lemma agrees_pair: "agrees R (r, s) (r', t) \<longleftrightarrow> r = r' \<and> alike R s t"
  by (simp add: agrees_def)

lemma agrees_split:
  assumes "agrees R x y"
  obtains r s t where "x = (r, s)" and "y = (r, t)" and "alike R s t"
  using assms by (cases x; cases y) (simp add: agrees_def)

lemma spawn_agrees:
  assumes "same_answers sys1 sys2 R" and "alike R s t" and "\<not> is_branch_delete cmd"
  shows "agrees R (spawn sys1 cmd s) (spawn sys2 cmd t)"
proof -
  from assms(2) have c: "cwd s = cwd t" and w: "R (world s) (world t)"
    by (simp_all add: alike_def)
  from assms(1) w assms(3)
  have "fst (subprocess_run sys1 (cwd t) cmd (world s)) =
          fst (subprocess_run sys2 (cwd t) cmd (world t)) \<and>
        R (snd (subprocess_run sys1 (cwd t) cmd (world s)))
          (snd (subprocess_run sys2 (cwd t) cmd (world t)))"
    unfolding same_answers_def by blast
  with assms(2) show ?thesis
    by (auto simp: agrees_def alike_def spawn_def split: prod.splits)
qed

lemma run_agrees:
  assumes "same_answers sys1 sys2 R" and "alike R s t" and "\<not> is_branch_delete cmd"
  shows "agrees R (run sys1 cmd check s) (run sys2 cmd check t)"
  using spawn_agrees [OF assms]
  by (auto simp: agrees_def run_def split: prod.splits)

lemma tip_sha_agrees:
  assumes "same_answers sys1 sys2 R" and "alike R s t"
  shows "agrees R (tip_sha sys1 b s) (tip_sha sys2 b t)"
  unfolding tip_sha_def by (rule run_agrees [OF assms]) simp

lemma current_branch_agrees:
  assumes "same_answers sys1 sys2 R" and "alike R s t"
  shows "agrees R (current_branch sys1 s) (current_branch sys2 t)"
  unfolding current_branch_def by (rule run_agrees [OF assms]) simp

lemma commit_in_base_agrees:
  assumes "same_answers sys1 sys2 R" and "alike R s t"
  shows "agrees R (commit_in_base sys1 c base_ref s) (commit_in_base sys2 c base_ref t)"
  using spawn_agrees [OF assms, of "[''git'', ''merge-base'', ''--is-ancestor'', c, base_ref]"]
  by (auto simp: agrees_def commit_in_base_def split: prod.splits)

lemma remote_branch_exists_agrees:
  assumes "same_answers sys1 sys2 R" and "alike R s t"
  shows "agrees R (remote_branch_exists sys1 rm b s) (remote_branch_exists sys2 rm b t)"
  using run_agrees [OF assms, of "[''git'', ''ls-remote'', ''--heads'', rm, b]" False]
  by (auto simp: agrees_def remote_branch_exists_def split: prod.splits sum.splits)

lemma upstream_for_agrees:
  assumes "same_answers sys1 sys2 R" and "alike R s t"
  shows "agrees R (upstream_for sys1 b s) (upstream_for sys2 b t)"
  using run_agrees [OF assms, of "[''git'', ''rev-parse'', ''--abbrev-ref'',
                                   b @ [CHR 0x40] @ ''{upstream}'']" False]
  by (auto simp: agrees_def upstream_for_def split: prod.splits sum.splits)

lemma base_has_issue_closure_agrees:
  assumes "same_answers sys1 sys2 R" and "alike R s t"
  shows "agrees R (base_has_issue_closure sys1 base_ref i s)
                  (base_has_issue_closure sys2 base_ref i t)"
  using run_agrees [OF assms, of "[''git'', ''log'', base_ref, ''--regexp-ignore-case'',
                                   ''--grep='' @ closure_pattern i, ''-n'', ''1'']" False]
  by (auto simp: agrees_def base_has_issue_closure_def split: prod.splits sum.splits)

lemma local_branches_agrees:
  assumes "same_answers sys1 sys2 R" and "alike R s t"
  shows "agrees R (local_branches sys1 s) (local_branches sys2 t)"
  using run_agrees [OF assms, of "[''git'', ''for-each-ref'', ''--format=%(refname:short)'',
                                   ''refs/heads'']" True]
  by (auto simp: agrees_def local_branches_def split: prod.splits sum.splits)

lemma delete_branch_dry_agrees:
  assumes "alike R s t"
  shows "agrees R (delete_branch sys1 b f True s) (delete_branch sys2 b f True t)"
  using assms by (simp add: delete_branch_def agrees_def alike_print Let_def)

lemma ensure_git_repo_agrees:
  assumes "same_answers sys1 sys2 R" and "alike R s t"
  shows "agrees R (ensure_git_repo sys1 p s) (ensure_git_repo sys2 p t)"
proof -
  from assms(2) have c: "cwd s = cwd t" and w: "R (world s) (world t)"
    by (simp_all add: alike_def)
  from assms(1) w have "is_dir sys1 (cwd t) q (world s) = is_dir sys2 (cwd t) q (world t)" for q
    unfolding same_answers_def by blast
  with assms(2) c show ?thesis
    by (simp add: ensure_git_repo_def agrees_def)
qed


lemma body_tip_agrees:
  assumes "same_answers sys1 sys2 R" and "dry_run a" and "alike R s t"
  shows "agrees R (clean_body_tip sys1 a base_ref b s) (clean_body_tip sys2 a base_ref b t)"
proof -
  from tip_sha_agrees [OF assms(1,3)] obtain r1 s1 t1
    where x1: "tip_sha sys1 b s = (r1, s1)" and y1: "tip_sha sys2 b t = (r1, t1)"
      and a1: "alike R s1 t1"
    by (rule agrees_split)
  show ?thesis
  proof (cases r1)
    case (Inl e)
    with x1 y1 a1 show ?thesis by (simp add: clean_body_tip_def agrees_pair)
  next
    case (Inr tip)
    from commit_in_base_agrees [OF assms(1) a1] obtain inb s2 t2
      where x2: "commit_in_base sys1 tip base_ref s1 = (inb, s2)"
        and y2: "commit_in_base sys2 tip base_ref t1 = (inb, t2)"
        and a2: "alike R s2 t2"
      by (rule agrees_split)
    show ?thesis
    proof (cases inb)
      case False
      with x1 y1 Inr x2 y2 a2 show ?thesis
        by (simp add: clean_body_tip_def agrees_pair alike_print)
    next
      case True
      have "agrees R
              (if check_remote_missing a then remote_branch_exists sys1 (remote a) b s2
               else (Inr False, s2))
              (if check_remote_missing a then remote_branch_exists sys2 (remote a) b t2
               else (Inr False, t2))"
        using remote_branch_exists_agrees [OF assms(1) a2] a2 by (simp add: agrees_pair)
      then obtain r3 s3 t3
        where x3: "(if check_remote_missing a then remote_branch_exists sys1 (remote a) b s2
                    else (Inr False, s2)) = (r3, s3)"
          and y3: "(if check_remote_missing a then remote_branch_exists sys2 (remote a) b t2
                    else (Inr False, t2)) = (r3, t3)"
          and a3: "alike R s3 t3"
        by (rule agrees_split)
      show ?thesis
      proof (cases r3)
        case (Inl e)
        with x1 y1 Inr x2 y2 True x3 y3 a3 show ?thesis
          by (simp add: clean_body_tip_def agrees_pair)
      next
        case on_remote: (Inr on_remote)
        show ?thesis
        proof (cases on_remote)
          case True
          with x1 y1 Inr x2 y2 \<open>inb\<close> x3 y3 a3 on_remote show ?thesis
            by (simp add: clean_body_tip_def agrees_pair alike_print)
        next
          case False
          let ?line = "''[DEL ] '' @ b @ '' (tip '' @ take 8 tip @ '' is in '' @ base_ref @ '')''"
          have "agrees R (delete_branch sys1 b (force a) True (print ?line s3))
                         (delete_branch sys2 b (force a) True (print ?line t3))"
            by (rule delete_branch_dry_agrees [OF alike_print [OF a3]])
          with x1 y1 Inr x2 y2 \<open>inb\<close> x3 y3 on_remote False assms(2) show ?thesis
            by (simp add: clean_body_tip_def)
        qed
      qed
    qed
  qed
qed

lemma body_issue_agrees:
  assumes "same_answers sys1 sys2 R" and "dry_run a" and "alike R s t"
  shows "agrees R (clean_body_issue sys1 a base_ref b s) (clean_body_issue sys2 a base_ref b t)"
proof (cases "check_issue_closure a")
  case False
  with body_tip_agrees [OF assms] show ?thesis by (simp add: clean_body_issue_def)
next
  case True
  note on = this
  show ?thesis
  proof (cases "issue_id_from_branch b")
    case None
    with on assms(3) show ?thesis
      by (simp add: clean_body_issue_def agrees_pair alike_print)
  next
    case (Some issue_id)
    from base_has_issue_closure_agrees [OF assms(1,3)] obtain r1 s1 t1
      where x1: "base_has_issue_closure sys1 base_ref issue_id s = (r1, s1)"
        and y1: "base_has_issue_closure sys2 base_ref issue_id t = (r1, t1)"
        and a1: "alike R s1 t1"
      by (rule agrees_split)
    show ?thesis
    proof (cases r1)
      case (Inl e)
      with on Some x1 y1 a1 show ?thesis by (simp add: clean_body_issue_def agrees_pair)
    next
      case (Inr closed)
      show ?thesis
      proof (cases closed)
        case False
        with on Some x1 y1 a1 Inr show ?thesis
          by (simp add: clean_body_issue_def agrees_pair alike_print)
      next
        case True
        with on Some x1 y1 Inr body_tip_agrees [OF assms(1,2) a1] show ?thesis
          by (simp add: clean_body_issue_def)
      qed
    qed
  qed
qed

lemma body_upstream_agrees:
  assumes "same_answers sys1 sys2 R" and "dry_run a" and "alike R s t"
  shows "agrees R (clean_body_upstream sys1 a base_ref b s)
                  (clean_body_upstream sys2 a base_ref b t)"
proof (cases "check_upstream_missing a")
  case False
  with body_issue_agrees [OF assms] show ?thesis by (simp add: clean_body_upstream_def)
next
  case True
  from upstream_for_agrees [OF assms(1,3)] obtain r1 s1 t1
    where x1: "upstream_for sys1 b s = (r1, s1)" and y1: "upstream_for sys2 b t = (r1, t1)"
      and a1: "alike R s1 t1"
    by (rule agrees_split)
  show ?thesis
  proof (cases r1)
    case (Inl e)
    with True x1 y1 a1 show ?thesis by (simp add: clean_body_upstream_def agrees_pair)
  next
    case (Inr up)
    show ?thesis
    proof (cases "case up of None \<Rightarrow> True
                  | Some u \<Rightarrow> u = [] \<or> \<not> startswith u (remote a @ ''/'')")
      case skip: True
      with True x1 y1 a1 Inr show ?thesis
        by (simp add: clean_body_upstream_def agrees_pair alike_print)
    next
      case False
      with True x1 y1 Inr body_issue_agrees [OF assms(1,2) a1] show ?thesis
        by (simp add: clean_body_upstream_def)
    qed
  qed
qed

lemma body_agrees:
  assumes "same_answers sys1 sys2 R" and "dry_run a" and "alike R s t"
  shows "agrees R (clean_body sys1 a protected critical cur base_ref b s)
                  (clean_body sys2 a protected critical cur base_ref b t)"
  using body_upstream_agrees [OF assms] assms(3)
  by (simp add: clean_body_def agrees_pair alike_print Let_def)

lemma loop_agrees:
  assumes "same_answers sys1 sys2 R" and "dry_run a"
  shows "alike R s t \<Longrightarrow>
         agrees R (clean_loop sys1 a protected critical cur base_ref bs s)
                  (clean_loop sys2 a protected critical cur base_ref bs t)"
proof (induction bs arbitrary: s t)
  case Nil
  then show ?case by (simp add: agrees_pair)
next
  case (Cons b bs)
  from body_agrees [OF assms Cons.prems] obtain r1 s1 t1
    where x1: "clean_body sys1 a protected critical cur base_ref b s = (r1, s1)"
      and y1: "clean_body sys2 a protected critical cur base_ref b t = (r1, t1)"
      and a1: "alike R s1 t1"
    by (rule agrees_split)
  show ?case
  proof (cases r1)
    case (Inl e)
    with x1 y1 a1 show ?thesis by (simp add: agrees_pair)
  next
    case (Inr u)
    with x1 y1 Cons.IH [OF a1] show ?thesis by simp
  qed
qed

lemma enter_alike:
  assumes "same_answers sys1 sys2 R" and "alike R s t"
  shows "alike R (clean_enter sys1 a s) (clean_enter sys2 a t)"
proof (cases "fetch a")
  case False
  with assms(2) show ?thesis by (simp add: clean_enter_def alike_chdir)
next
  case True
  have "agrees R (run sys1 [''git'', ''fetch'', remote a, ''--prune''] False (chdir (repo a) s))
                 (run sys2 [''git'', ''fetch'', remote a, ''--prune''] False (chdir (repo a) t))"
    by (rule run_agrees [OF assms(1) alike_chdir [OF assms(2)]]) simp
  with True show ?thesis by (simp add: clean_enter_def agrees_def)
qed

lemma try_agrees:
  assumes "same_answers sys1 sys2 R" and "alike R s t"
  shows "agrees R (clean_try sys1 a s) (clean_try sys2 a t)"
proof -
  from ensure_git_repo_agrees [OF assms] obtain r0 s0 t0
    where x0: "ensure_git_repo sys1 (repo a) s = (r0, s0)"
      and y0: "ensure_git_repo sys2 (repo a) t = (r0, t0)" and a0: "alike R s0 t0"
    by (rule agrees_split)
  show ?thesis
  proof (cases r0)
    case (Inl e)
    with x0 y0 a0 show ?thesis by (simp add: clean_try_def agrees_pair)
  next
    case (Inr u)
    from current_branch_agrees [OF assms(1) enter_alike [OF assms(1) a0]] obtain r1 s1 t1
      where x1: "current_branch sys1 (clean_enter sys1 a s0) = (r1, s1)"
        and y1: "current_branch sys2 (clean_enter sys2 a t0) = (r1, t1)"
        and a1: "alike R s1 t1"
      by (rule agrees_split)
    show ?thesis
    proof (cases r1)
      case (Inl e)
      with x0 y0 Inr x1 y1 a1 show ?thesis by (simp add: clean_try_def agrees_pair)
    next
      case cur: (Inr cur)
      from local_branches_agrees [OF assms(1) a1] obtain r2 s2 t2
        where x2: "local_branches sys1 s1 = (r2, s2)"
          and y2: "local_branches sys2 t1 = (r2, t2)" and a2: "alike R s2 t2"
        by (rule agrees_split)
      with x0 y0 Inr x1 y1 cur show ?thesis
        by (cases r2) (simp_all add: clean_try_def agrees_pair)
    qed
  qed
qed

lemma clean_agrees:
  assumes "same_answers sys1 sys2 R" and "dry_run a" and "alike R s t"
  shows "agrees R (clean sys1 env a s) (clean sys2 env a t)"
proof -
  from try_agrees [OF assms(1,3)] obtain r1 s1 t1
    where x1: "clean_try sys1 a s = (r1, s1)" and y1: "clean_try sys2 a t = (r1, t1)"
      and a1: "alike R s1 t1"
    by (rule agrees_split)
  show ?thesis
  proof (cases r1)
    case (Inl e)
    with x1 y1 a1 show ?thesis
      by (cases e) (simp_all add: clean_def agrees_pair alike_echo_err)
  next
    case (Inr cb)
    obtain cur branches where cb: "cb = (cur, branches)"
      by (cases cb)
    have "agrees R
            (run sys1 [''git'', ''rev-parse'', ''--verify'', ''--quiet'', base a] False s1)
            (run sys2 [''git'', ''rev-parse'', ''--verify'', ''--quiet'', base a] False t1)"
      by (rule run_agrees [OF assms(1) a1]) simp
    then obtain r2 s2 t2
      where x2: "run sys1 [''git'', ''rev-parse'', ''--verify'', ''--quiet'', base a] False s1 =
                   (r2, s2)"
        and y2: "run sys2 [''git'', ''rev-parse'', ''--verify'', ''--quiet'', base a] False t1 =
                   (r2, t2)"
        and a2: "alike R s2 t2"
      by (rule agrees_split)
    show ?thesis
    proof (cases r2)
      case (Inl e)
      with x1 y1 Inr cb x2 y2 a2 show ?thesis by (simp add: clean_def agrees_pair)
    next
      case res: (Inr res)
      show ?thesis
      proof (cases "res = []")
        case True
        with x1 y1 Inr cb x2 y2 a2 res show ?thesis
          by (simp add: clean_def agrees_pair alike_echo_err)
      next
        case False
        with x1 y1 Inr cb x2 y2 res loop_agrees [OF assms(1,2) a2] show ?thesis
          by (simp add: clean_def)
      qed
    qed
  qed
qed

lemma program_agrees:
  assumes "same_answers sys1 sys2 R" and "dry_run a" and "alike R s t"
  shows "agrees R (program sys1 env a s) (program sys2 env a t)"
proof -
  from assms(3) have c: "cwd s = cwd t" and w: "R (world s) (world t)"
    by (simp_all add: alike_def)
  from assms(1) w
  have "path_exists sys1 (cwd t) (repo a) (world s) = path_exists sys2 (cwd t) (repo a) (world t)"
    unfolding same_answers_def by blast
  with clean_agrees [OF assms, of env] assms(3) c show ?thesis
    by (simp add: program_def agrees_pair split: sum.splits)
qed

section \<open>The guards of the loop body\<close>

text \<open>
  C1. The branch that equals the checked-out branch is skipped with the reason
  \<open>current\<close>, whatever the options, the protected and the critical set are; the
  iteration only prints that line: it starts no command, so no other guard is evaluated.
\<close>

theorem current_branch_skipped:
  "clean_body sys a protected critical cur base_ref cur s =
     (Inr (), s\<lparr>out := out s @ [''[SKIP] '' @ cur @ '' (current)'']\<rparr>)"
  by (simp add: clean_body_def print_def)

theorem current_branch_skipped_witness:
  "clean_body toy_git
     (toy_args\<lparr>force := True, check_upstream_missing := True, check_remote_missing := True,
                check_issue_closure := True\<rparr>)
     {} {} ''Feature-X'' ''dev'' ''Feature-X'' (fresh ''/srv/repo'' toy_repo) =
   (Inr (), (fresh ''/srv/repo'' toy_repo)\<lparr>out := [''[SKIP] Feature-X (current)'']\<rparr>)"
  using current_branch_skipped [of toy_git _ "{}" "{}" "''Feature-X''" "''dev''"
      "fresh ''/srv/repo'' toy_repo"]
  by (simp add: fresh_def)

text \<open>
  C2. A branch other than the current one whose lower-cased name is in the protected set
  is skipped with the reason \<open>protected\<close>; one whose lower-cased name is in the critical
  set (and not in the protected set, which is asked first) is skipped with the reason
  \<open>critical\<close>. In both cases the iteration only prints that line and starts no command:
  the upstream, issue-closure, ancestry and remote guards are not evaluated.
\<close>

theorem protected_or_critical_skipped:
  assumes "b \<noteq> cur"
  shows "(lower b \<in> protected \<longrightarrow>
            clean_body sys a protected critical cur base_ref b s =
              (Inr (), s\<lparr>out := out s @ [''[SKIP] '' @ b @ '' (protected)'']\<rparr>)) \<and>
         (lower b \<notin> protected \<and> lower b \<in> critical \<longrightarrow>
            clean_body sys a protected critical cur base_ref b s =
              (Inr (), s\<lparr>out := out s @ [''[SKIP] '' @ b @ '' (critical)'']\<rparr>))"
  using assms by (simp add: clean_body_def print_def)

theorem protected_or_critical_skipped_witness:
  "[CHR 0xC9, CHR ''T'', CHR 0xC9] \<noteq> ''Feature-X'' \<and>
   lower [CHR 0xC9, CHR ''T'', CHR 0xC9] \<in> PROTECTED accent_env \<and>
   clean_body toy_git toy_args (PROTECTED accent_env) (CRITICAL accent_env) ''Feature-X'' ''dev''
     [CHR 0xC9, CHR ''T'', CHR 0xC9] toy_start =
   (Inr (), toy_start\<lparr>out := out toy_start @
      [''[SKIP] '' @ [CHR 0xC9, CHR ''T'', CHR 0xC9] @ '' (protected)'']\<rparr>) \<and>
   ''DEV'' \<noteq> ''Feature-X'' \<and> lower ''DEV'' \<notin> {''main''} \<and> lower ''DEV'' \<in> CRITICAL no_env \<and>
   clean_body toy_git toy_args {''main''} (CRITICAL no_env) ''Feature-X'' ''dev''
     ''DEV'' toy_start =
   (Inr (), toy_start\<lparr>out := out toy_start @ [''[SKIP] '' @ ''DEV'' @ '' (critical)'']\<rparr>)"
proof -
  have ne1: "[CHR 0xC9, CHR ''T'', CHR 0xC9] \<noteq> ''Feature-X''" and ne2: "''DEV'' \<noteq> ''Feature-X''"
    by simp_all
  have in1: "lower [CHR 0xC9, CHR ''T'', CHR 0xC9] \<in> PROTECTED accent_env"
    by code_simp
  have out2: "lower ''DEV'' \<notin> {''main''}" and in2: "lower ''DEV'' \<in> CRITICAL no_env"
    by code_simp+
  have r1: "clean_body toy_git toy_args (PROTECTED accent_env) (CRITICAL accent_env)
      ''Feature-X'' ''dev'' [CHR 0xC9, CHR ''T'', CHR 0xC9] toy_start =
      (Inr (), toy_start\<lparr>out := out toy_start @
         [''[SKIP] '' @ [CHR 0xC9, CHR ''T'', CHR 0xC9] @ '' (protected)'']\<rparr>)"
    by (rule protected_or_critical_skipped [OF ne1, THEN conjunct1, rule_format, OF in1])
  have r2: "clean_body toy_git toy_args {''main''} (CRITICAL no_env) ''Feature-X'' ''dev''
      ''DEV'' toy_start =
      (Inr (), toy_start\<lparr>out := out toy_start @ [''[SKIP] '' @ ''DEV'' @ '' (critical)'']\<rparr>)"
    by (rule protected_or_critical_skipped [OF ne2, THEN conjunct2, rule_format,
          OF conjI [OF out2 in2]])
  from ne1 in1 r1 ne2 out2 in2 r2 show ?thesis by (intro conjI)
qed

text \<open>
  C10. The current-branch guard compares the name as it is, while the protected and the
  critical guard compare the lower-cased name. A branch that differs from the checked-out
  branch only in letter case is therefore not caught by the first guard: the iteration
  goes on with the protected guard, the critical guard and the guards after them.
\<close>

theorem current_guard_is_case_sensitive:
  assumes "b \<noteq> cur" and "lower b = lower cur"
  shows "clean_body sys a protected critical cur base_ref b s =
           (if lower cur \<in> protected
            then (Inr (), print (''[SKIP] '' @ b @ '' (protected)'') s)
            else if lower cur \<in> critical
            then (Inr (), print (''[SKIP] '' @ b @ '' (critical)'') s)
            else clean_body_upstream sys a base_ref b s)"
  using assms by (simp add: clean_body_def)

theorem current_guard_is_case_sensitive_witness:
  "(''feature-x'' \<noteq> ''Feature-X'' \<and> lower ''feature-x'' = lower ''Feature-X'' \<and>
   out (snd (clean_body toy_git toy_args (PROTECTED no_env) (CRITICAL no_env) ''Feature-X''
               ''dev'' ''feature-x'' (fresh ''/srv/repo'' toy_repo))) =
     [''[DEL ] feature-x (tip 33333333 is in dev)''] \<and>
   map fst (heads (world (snd (clean_body toy_git toy_args (PROTECTED no_env) (CRITICAL no_env)
               ''Feature-X'' ''dev'' ''feature-x'' (fresh ''/srv/repo'' toy_repo))))) =
     [''Feature-X'', ''dev'', ''42-fix-bug'', ''wip'']) \<and>
   ([CHR ''a'', CHR 0xC9] \<noteq> [CHR ''A'', CHR 0xC9] \<and>
   lower [CHR ''a'', CHR 0xC9] = lower [CHR ''A'', CHR 0xC9] \<and>
   clean_body toy_git toy_args {[CHR ''a'', CHR 0xE9]} (CRITICAL no_env) [CHR ''A'', CHR 0xC9]
     ''dev'' [CHR ''a'', CHR 0xC9] toy_start =
   (Inr (), print (''[SKIP] '' @ [CHR ''a'', CHR 0xC9] @ '' (protected)'') toy_start))"
proof -
  have plain: "''feature-x'' \<noteq> ''Feature-X'' \<and> lower ''feature-x'' = lower ''Feature-X'' \<and>
   out (snd (clean_body toy_git toy_args (PROTECTED no_env) (CRITICAL no_env) ''Feature-X''
               ''dev'' ''feature-x'' (fresh ''/srv/repo'' toy_repo))) =
     [''[DEL ] feature-x (tip 33333333 is in dev)''] \<and>
   map fst (heads (world (snd (clean_body toy_git toy_args (PROTECTED no_env) (CRITICAL no_env)
               ''Feature-X'' ''dev'' ''feature-x'' (fresh ''/srv/repo'' toy_repo))))) =
     [''Feature-X'', ''dev'', ''42-fix-bug'', ''wip'']"
  proof -
    have ne: "''feature-x'' \<noteq> ''Feature-X''"
      by simp
    have eq: "lower ''feature-x'' = lower ''Feature-X''"
      by code_simp
    have free: "lower ''Feature-X'' \<notin> PROTECTED no_env" "lower ''Feature-X'' \<notin> CRITICAL no_env"
      by code_simp+
    have later: "clean_body_upstream toy_git toy_args ''dev'' ''feature-x''
                   (fresh ''/srv/repo'' toy_repo) =
       (Inr (),
        \<lparr>cwd = ''/srv/repo'',
         world = toy_repo\<lparr>heads := [(''Feature-X'', ''1111111111''), (''dev'', ''2222222222''),
                                    (''42-fix-bug'', ''5555555555''), (''wip'', ''6666666666'')]\<rparr>,
         out = [''[DEL ] feature-x (tip 33333333 is in dev)''],
         err = [],
         calls = [ [''git'', ''rev-parse'', ''feature-x''],
                   [''git'', ''merge-base'', ''--is-ancestor'', ''3333333333'', ''dev''],
                   [''git'', ''branch'', ''-d'', ''feature-x''] ]\<rparr>)"
      by code_simp
    show ?thesis
      using ne eq free current_guard_is_case_sensitive [OF ne eq, of toy_git toy_args
          "PROTECTED no_env" "CRITICAL no_env" "''dev''" "fresh ''/srv/repo'' toy_repo"]
      by (simp add: later)
  qed
  have accented: "[CHR ''a'', CHR 0xC9] \<noteq> [CHR ''A'', CHR 0xC9] \<and>
   lower [CHR ''a'', CHR 0xC9] = lower [CHR ''A'', CHR 0xC9] \<and>
   clean_body toy_git toy_args {[CHR ''a'', CHR 0xE9]} (CRITICAL no_env) [CHR ''A'', CHR 0xC9]
     ''dev'' [CHR ''a'', CHR 0xC9] toy_start =
   (Inr (), print (''[SKIP] '' @ [CHR ''a'', CHR 0xC9] @ '' (protected)'') toy_start)"
  proof -
    have ne: "[CHR ''a'', CHR 0xC9] \<noteq> [CHR ''A'', CHR 0xC9]"
      by simp
    have eq: "lower [CHR ''a'', CHR 0xC9] = lower [CHR ''A'', CHR 0xC9]"
      by code_simp
    have mem: "lower [CHR ''A'', CHR 0xC9] \<in> {[CHR ''a'', CHR 0xE9]}"
      by code_simp
    from current_guard_is_case_sensitive [OF ne eq, of toy_git toy_args "{[CHR ''a'', CHR 0xE9]}"
        "CRITICAL no_env" "''dev''" toy_start] mem
    have "clean_body toy_git toy_args {[CHR ''a'', CHR 0xE9]} (CRITICAL no_env)
       [CHR ''A'', CHR 0xC9] ''dev'' [CHR ''a'', CHR 0xC9] toy_start =
       (Inr (), print (''[SKIP] '' @ [CHR ''a'', CHR 0xC9] @ '' (protected)'') toy_start)"
      by (simp only: if_True)
    with ne eq show ?thesis by (intro conjI)
  qed
  from plain accented show ?thesis by (rule conjI)
qed

text \<open>
  C5 (as the code has it). With the issue-closure check enabled, a branch that reaches
  this guard and whose name does not match the pattern (one or more digits, then \<open>-\<close>
  or \<open>_\<close>, then at least one more character, which is not a newline) is skipped with
  the reason \<open>no issue id prefix for closure check\<close>. A branch whose name matches is
  kept when the search of the log of the base comes back empty; the search is \<open>git log\<close>
  with \<open>--regexp-ignore-case\<close> and, as \<open>--grep\<close>, the six verbs, \<open>\s+#?\<close>, the
  leading digits of the name and \<open>\b\<close>. How git reads that expression is outside the
  program.
\<close>

theorem issue_closure_guard:
  assumes "check_issue_closure a"
  shows "(\<not> matches_issue_pattern b \<longrightarrow>
            clean_body_issue sys a base_ref b s =
              (Inr (), print (''[SKIP] '' @ b @ '' (no issue id prefix for closure check)'') s)) \<and>
         (\<forall>p s1. matches_issue_pattern b \<and>
            spawn sys [''git'', ''log'', base_ref, ''--regexp-ignore-case'',
                       ''--grep=(closes|closed|fixes|fixed|resolves|resolved)'' @ [CHR 0x5C] @
                         ''s+#?'' @ takeWhile is_digit b @ [CHR 0x5C] @ ''b'',
                       ''-n'', ''1''] s = (p, s1) \<and>
            strip (stdout p) = [] \<longrightarrow>
            clean_body_issue sys a base_ref b s =
              (Inr (), print (''[KEEP] '' @ b @ '' (no issue-closure marker on '' @ base_ref @
                              '' for #'' @ takeWhile is_digit b @ '')'') s1))"
proof (intro conjI impI allI)
  assume "\<not> matches_issue_pattern b"
  then have "issue_id_from_branch b = None" by (simp add: issue_id_None_iff)
  with assms show "clean_body_issue sys a base_ref b s =
      (Inr (), print (''[SKIP] '' @ b @ '' (no issue id prefix for closure check)'') s)"
    by (simp add: clean_body_issue_def)
next
  fix p s1
  assume h: "matches_issue_pattern b \<and>
            spawn sys [''git'', ''log'', base_ref, ''--regexp-ignore-case'',
                       ''--grep=(closes|closed|fixes|fixed|resolves|resolved)'' @ [CHR 0x5C] @
                         ''s+#?'' @ takeWhile is_digit b @ [CHR 0x5C] @ ''b'',
                       ''-n'', ''1''] s = (p, s1) \<and>
            strip (stdout p) = []"
  then have id: "issue_id_from_branch b = Some (takeWhile is_digit b)"
    by (simp add: issue_id_of_match)
  have "\<forall>c \<in> set (takeWhile is_digit b). is_digit c"
    by (auto dest: set_takeWhileD)
  then have pat: "closure_pattern (takeWhile is_digit b) =
      ''(closes|closed|fixes|fixed|resolves|resolved)'' @ [CHR 0x5C] @ ''s+#?'' @
      takeWhile is_digit b @ [CHR 0x5C] @ ''b''"
    by (simp add: closure_pattern_def re_escape_digits)
  have "base_has_issue_closure sys base_ref (takeWhile is_digit b) s = (Inr False, s1)"
    using h by (simp add: base_has_issue_closure_def run_def pat strip_Nil)
  with assms id show "clean_body_issue sys a base_ref b s =
      (Inr (), print (''[KEEP] '' @ b @ '' (no issue-closure marker on '' @ base_ref @
                      '' for #'' @ takeWhile is_digit b @ '')'') s1)"
    by (simp add: clean_body_issue_def)
qed

theorem issue_closure_guard_witness:
  "check_issue_closure (toy_args\<lparr>check_issue_closure := True\<rparr>) \<and>
   \<not> matches_issue_pattern ''wip'' \<and>
   clean_body_issue toy_git (toy_args\<lparr>check_issue_closure := True\<rparr>) ''dev'' ''wip'' toy_start =
     (Inr (), print (''[SKIP] '' @ ''wip'' @ '' (no issue id prefix for closure check)'')
                toy_start) \<and>
   matches_issue_pattern ''42-fix-bug'' \<and>
   out (snd (clean_body_issue toy_git (toy_args\<lparr>check_issue_closure := True\<rparr>) ''dev''
               ''42-fix-bug'' toy_start)) =
     [''[KEEP] 42-fix-bug (no issue-closure marker on dev for #42)'']"
proof -
  let ?a = "toy_args\<lparr>check_issue_closure := True\<rparr>"
  let ?log = "spawn toy_git
     [''git'', ''log'', ''dev'', ''--regexp-ignore-case'',
      ''--grep=(closes|closed|fixes|fixed|resolves|resolved)'' @ [CHR 0x5C] @
        ''s+#?'' @ takeWhile is_digit ''42-fix-bug'' @ [CHR 0x5C] @ ''b'',
      ''-n'', ''1''] toy_start"
  let ?kept = "print (''[KEEP] '' @ ''42-fix-bug'' @ '' (no issue-closure marker on '' @ ''dev'' @
                      '' for #'' @ takeWhile is_digit ''42-fix-bug'' @ '')'') (snd ?log)"
  have on: "check_issue_closure ?a"
    by code_simp
  have "issue_id_from_branch ''wip'' = None"
    by code_simp
  then have no: "\<not> matches_issue_pattern ''wip''"
    using issue_id_None_iff by blast
  have "issue_id_from_branch ''42-fix-bug'' = Some ''42''"
    by code_simp
  then have yes: "matches_issue_pattern ''42-fix-bug''"
    by (rule match_of_issue_id)
  have sp: "?log = (fst ?log, snd ?log)"
    by simp
  have empty: "strip (stdout (fst ?log)) = []"
    by code_simp
  have lines: "out ?kept = [''[KEEP] 42-fix-bug (no issue-closure marker on dev for #42)'']"
    by code_simp
  have skip: "clean_body_issue toy_git ?a ''dev'' ''wip'' toy_start =
     (Inr (), print (''[SKIP] '' @ ''wip'' @ '' (no issue id prefix for closure check)'')
                toy_start)"
    by (rule issue_closure_guard [OF on, THEN conjunct1, rule_format, OF no])
  have "clean_body_issue toy_git ?a ''dev'' ''42-fix-bug'' toy_start = (Inr (), ?kept)"
    by (rule issue_closure_guard [OF on, THEN conjunct2, rule_format,
          OF conjI [OF yes conjI [OF sp empty]]])
  then have "snd (clean_body_issue toy_git ?a ''dev'' ''42-fix-bug'' toy_start) = ?kept"
    by (simp only: snd_conv)
  with lines have keep: "out (snd (clean_body_issue toy_git ?a ''dev'' ''42-fix-bug''
      toy_start)) = [''[KEEP] 42-fix-bug (no issue-closure marker on dev for #42)'']"
    by (simp only:)
  from on no skip yes keep show ?thesis by (intro conjI)
qed

text \<open>
  C5 as written fails: the name \<open>12-\<close> is digits and a separator with nothing after it;
  the search of the log finds nothing for issue 12, and the branch is skipped, not kept.
\<close>

theorem trailing_separator_is_skipped:
  "check_issue_closure (toy_args\<lparr>check_issue_closure := True\<rparr>) \<and>
   claimed_issue_pattern ''12-'' \<and>
   strip (stdout (fst (spawn toy_git
     [''git'', ''log'', ''dev'', ''--regexp-ignore-case'',
      ''--grep='' @ closure_pattern ''12'', ''-n'', ''1''] toy_start))) = [] \<and>
   clean_body_issue toy_git (toy_args\<lparr>check_issue_closure := True\<rparr>) ''dev'' ''12-'' toy_start =
     (Inr (), print ''[SKIP] 12- (no issue id prefix for closure check)'' toy_start)"
proof -
  have c1: "check_issue_closure (toy_args\<lparr>check_issue_closure := True\<rparr>)"
    by code_simp
  have "2 \<in> {1 ..< length ''12-''}" "\<forall>d \<in> set (take 2 ''12-''). is_digit d"
    "''12-'' ! 2 = CHR ''-''"
    by (simp_all add: is_digit_def)
  then have c2: "claimed_issue_pattern ''12-''"
    unfolding claimed_issue_pattern_def by blast
  have c3: "strip (stdout (fst (spawn toy_git
     [''git'', ''log'', ''dev'', ''--regexp-ignore-case'',
      ''--grep='' @ closure_pattern ''12'', ''-n'', ''1''] toy_start))) = []"
    by code_simp
  have c4: "clean_body_issue toy_git (toy_args\<lparr>check_issue_closure := True\<rparr>) ''dev'' ''12-''
      toy_start = (Inr (), print ''[SKIP] 12- (no issue id prefix for closure check)'' toy_start)"
    by code_simp
  from c1 c2 c3 c4 show ?thesis by (intro conjI)
qed


text \<open>
  C6. When the tip of the branch has been resolved and the ancestry test says that it is
  not contained in the base, the branch is kept: the iteration prints the \<open>[KEEP]\<close> line
  and ends, having started the two commands \<open>git rev-parse\<close> and \<open>git merge-base\<close>
  and no deletion.
\<close>

theorem tip_not_in_base_kept:
  assumes "tip_sha sys b s = (Inr tip, s1)"
    and "commit_in_base sys tip base_ref s1 = (False, s2)"
  shows "clean_body_tip sys a base_ref b s =
           (Inr (), print (''[KEEP] '' @ b @ '' (tip '' @ take 8 tip @ '' NOT in '' @
                           base_ref @ '')'') s2) \<and>
         calls s2 = calls s @ [ [''git'', ''rev-parse'', b],
                                [''git'', ''merge-base'', ''--is-ancestor'', tip, base_ref] ] \<and>
         (\<forall>cmd \<in> set (calls s2) - set (calls s). \<not> is_branch_delete cmd)"
proof -
  have body: "clean_body_tip sys a base_ref b s =
           (Inr (), print (''[KEEP] '' @ b @ '' (tip '' @ take 8 tip @ '' NOT in '' @
                           base_ref @ '')'') s2)"
    using assms by (simp add: clean_body_tip_def)
  have c1: "calls s1 = calls s @ [ [''git'', ''rev-parse'', b] ]"
    using assms(1) by (auto simp: tip_sha_def run_def spawn_def split: prod.splits if_splits)
  have c2: "calls s2 = calls s1 @ [ [''git'', ''merge-base'', ''--is-ancestor'', tip, base_ref] ]"
    using assms(2) by (auto simp: commit_in_base_def spawn_def split: prod.splits)
  from body c1 c2 show ?thesis by auto
qed

theorem tip_not_in_base_kept_witness:
  "fst (tip_sha toy_git ''wip'' toy_start) = Inr ''6666666666'' \<and>
   \<not> fst (commit_in_base toy_git ''6666666666'' ''dev'' (snd (tip_sha toy_git ''wip'' toy_start))) \<and>
   out (snd (clean_body_tip toy_git toy_args ''dev'' ''wip'' toy_start)) =
     [''[KEEP] wip (tip 66666666 NOT in dev)''] \<and>
   world (snd (clean_body_tip toy_git toy_args ''dev'' ''wip'' toy_start)) = toy_repo"
proof -
  let ?s1 = "snd (tip_sha toy_git ''wip'' toy_start)"
  let ?s2 = "snd (commit_in_base toy_git ''6666666666'' ''dev'' ?s1)"
  let ?line = "''[KEEP] '' @ ''wip'' @ '' (tip '' @ take 8 ''6666666666'' @ '' NOT in '' @
               ''dev'' @ '')''"
  have h1: "tip_sha toy_git ''wip'' toy_start = (Inr ''6666666666'', ?s1)"
    by code_simp
  have h2: "commit_in_base toy_git ''6666666666'' ''dev'' ?s1 = (False, ?s2)"
    by code_simp
  have c1: "fst (tip_sha toy_git ''wip'' toy_start) = Inr ''6666666666''"
    by code_simp
  have c2: "\<not> fst (commit_in_base toy_git ''6666666666'' ''dev'' ?s1)"
    by code_simp
  have after: "out (print ?line ?s2) = [''[KEEP] wip (tip 66666666 NOT in dev)'']"
    "world (print ?line ?s2) = toy_repo"
    by code_simp+
  have "clean_body_tip toy_git toy_args ''dev'' ''wip'' toy_start = (Inr (), print ?line ?s2)"
    using tip_not_in_base_kept [OF h1 h2, of toy_args] by (rule conjunct1)
  then have "snd (clean_body_tip toy_git toy_args ''dev'' ''wip'' toy_start) = print ?line ?s2"
    by (simp only: snd_conv)
  with after have c3: "out (snd (clean_body_tip toy_git toy_args ''dev'' ''wip'' toy_start)) =
      [''[KEEP] wip (tip 66666666 NOT in dev)'']"
    and c4: "world (snd (clean_body_tip toy_git toy_args ''dev'' ''wip'' toy_start)) = toy_repo"
    by (simp_all only:)
  from c1 c2 c3 c4 show ?thesis by (intro conjI)
qed

text \<open>
  C7. With the remote-missing check enabled, the lookup on the remote looks only at what
  \<open>git ls-remote\<close> wrote to its standard output, not at its return code: a lookup that
  fails and writes nothing there gives \<open>False\<close>, as does a lookup that succeeds and finds
  no head. No exception is raised, and a branch whose tip is contained in the base goes
  on to the \<open>[DEL ]\<close> line and to \<open>delete_branch\<close>.
\<close>

theorem remote_failure_counts_as_absent:
  assumes "check_remote_missing a"
    and "tip_sha sys b s = (Inr tip, s1)"
    and "commit_in_base sys tip base_ref s1 = (True, s2)"
    and "spawn sys [''git'', ''ls-remote'', ''--heads'', remote a, b] s2 = (p, s3)"
    and "strip (stdout p) = []"
  shows "remote_branch_exists sys (remote a) b s2 = (Inr False, s3) \<and>
         clean_body_tip sys a base_ref b s =
           delete_branch sys b (force a) (dry_run a)
             (print (''[DEL ] '' @ b @ '' (tip '' @ take 8 tip @ '' is in '' @ base_ref @
                     '')'') s3)"
proof -
  have r: "remote_branch_exists sys (remote a) b s2 = (Inr False, s3)"
    using assms(4,5) by (simp add: remote_branch_exists_def run_def strip_Nil)
  with assms(1-3) show ?thesis
    by (simp add: clean_body_tip_def)
qed

theorem remote_failure_counts_as_absent_witness:
  "returncode (fst (spawn toy_git [''git'', ''ls-remote'', ''--heads'', ''origin'', ''feature-x'']
      (snd (commit_in_base toy_git ''3333333333'' ''dev''
              (snd (tip_sha toy_git ''feature-x'' toy_start)))))) = 128 \<and>
   out (snd (clean_body_tip toy_git (toy_args\<lparr>check_remote_missing := True\<rparr>) ''dev''
               ''feature-x'' toy_start)) = [''[DEL ] feature-x (tip 33333333 is in dev)''] \<and>
   map fst (heads (world (snd (clean_body_tip toy_git (toy_args\<lparr>check_remote_missing := True\<rparr>)
               ''dev'' ''feature-x'' toy_start)))) = [''Feature-X'', ''dev'', ''42-fix-bug'', ''wip'']"
proof -
  let ?a = "toy_args\<lparr>check_remote_missing := True\<rparr>"
  let ?s1 = "snd (tip_sha toy_git ''feature-x'' toy_start)"
  let ?s2 = "snd (commit_in_base toy_git ''3333333333'' ''dev'' ?s1)"
  let ?ls = "spawn toy_git [''git'', ''ls-remote'', ''--heads'', remote ?a, ''feature-x''] ?s2"
  let ?del = "delete_branch toy_git ''feature-x'' (force ?a) (dry_run ?a)
             (print (''[DEL ] '' @ ''feature-x'' @ '' (tip '' @ take 8 ''3333333333'' @
                     '' is in '' @ ''dev'' @ '')'') (snd ?ls))"
  have h0: "check_remote_missing ?a"
    by code_simp
  have h1: "tip_sha toy_git ''feature-x'' toy_start = (Inr ''3333333333'', ?s1)"
    by code_simp
  have h2: "commit_in_base toy_git ''3333333333'' ''dev'' ?s1 = (True, ?s2)"
    by code_simp
  have h3: "?ls = (fst ?ls, snd ?ls)"
    by simp
  have h4: "strip (stdout (fst ?ls)) = []"
    by code_simp
  have c1: "returncode (fst (spawn toy_git
      [''git'', ''ls-remote'', ''--heads'', ''origin'', ''feature-x''] ?s2)) = 128"
    by code_simp
  have del: "out (snd ?del) = [''[DEL ] feature-x (tip 33333333 is in dev)'']"
    "map fst (heads (world (snd ?del))) = [''Feature-X'', ''dev'', ''42-fix-bug'', ''wip'']"
    by code_simp+
  have "clean_body_tip toy_git ?a ''dev'' ''feature-x'' toy_start = ?del"
    using remote_failure_counts_as_absent [OF h0 h1 h2 h3 h4] by (rule conjunct2)
  with del have c2: "out (snd (clean_body_tip toy_git ?a ''dev'' ''feature-x'' toy_start)) =
      [''[DEL ] feature-x (tip 33333333 is in dev)'']"
    and c3: "map fst (heads (world (snd (clean_body_tip toy_git ?a ''dev'' ''feature-x''
      toy_start)))) = [''Feature-X'', ''dev'', ''42-fix-bug'', ''wip'']"
    by (simp_all only:)
  from c1 c2 c3 show ?thesis by (intro conjI)
qed

section \<open>The sets of the run\<close>

text \<open>
  C4 (as the code has it). The names given with \<open>--protect\<close> are added, stripped and
  lower-cased, to the protected set; the critical set of the run is the configured one
  alone. A branch other than the current one whose lower-cased name is among these
  additions is thus in the protected set of the run and is skipped as protected.
\<close>

theorem additions_are_protected:
  assumes "p \<in> set (protect a)" and "strip p \<noteq> []" and "lower b = lower (strip p)"
    and "b \<noteq> cur"
  shows "clean_protected env a = PROTECTED env \<union> branch_names (protect a) \<and>
         clean_critical env a = CRITICAL env \<and>
         lower b \<in> clean_protected env a \<and>
         clean_body sys a (clean_protected env a) (clean_critical env a) cur base_ref b s =
           (Inr (), print (''[SKIP] '' @ b @ '' (protected)'') s)"
proof -
  have "lower b \<in> branch_names (protect a)"
    using assms(1-3) by (auto simp: branch_names_def)
  then have mem: "lower b \<in> clean_protected env a"
    by (simp add: clean_protected_def)
  with assms(4) show ?thesis
    by (simp add: clean_body_def clean_protected_def clean_critical_def)
qed

theorem additions_are_protected_witness:
  "[CHR 0xA0, CHR 0xC9, CHR ''t'', CHR 0xE9, CHR '' ''] \<in>
     set (protect (toy_args\<lparr>protect := [ [CHR 0xA0, CHR 0xC9, CHR ''t'', CHR 0xE9, CHR '' ''] ]\<rparr>)) \<and>
   strip [CHR 0xA0, CHR 0xC9, CHR ''t'', CHR 0xE9, CHR '' ''] \<noteq> [] \<and>
   lower [CHR 0xE9, CHR ''t'', CHR 0xE9] =
     lower (strip [CHR 0xA0, CHR 0xC9, CHR ''t'', CHR 0xE9, CHR '' '']) \<and>
   [CHR 0xE9, CHR ''t'', CHR 0xE9] \<noteq> ''dev'' \<and>
   lower [CHR 0xE9, CHR ''t'', CHR 0xE9] \<in>
     clean_protected no_env
       (toy_args\<lparr>protect := [ [CHR 0xA0, CHR 0xC9, CHR ''t'', CHR 0xE9, CHR '' ''] ]\<rparr>) \<and>
   clean_body toy_git
     (toy_args\<lparr>protect := [ [CHR 0xA0, CHR 0xC9, CHR ''t'', CHR 0xE9, CHR '' ''] ]\<rparr>)
     (clean_protected no_env
        (toy_args\<lparr>protect := [ [CHR 0xA0, CHR 0xC9, CHR ''t'', CHR 0xE9, CHR '' ''] ]\<rparr>))
     (clean_critical no_env
        (toy_args\<lparr>protect := [ [CHR 0xA0, CHR 0xC9, CHR ''t'', CHR 0xE9, CHR '' ''] ]\<rparr>))
     ''dev'' ''dev'' [CHR 0xE9, CHR ''t'', CHR 0xE9] toy_start =
   (Inr (), print (''[SKIP] '' @ [CHR 0xE9, CHR ''t'', CHR 0xE9] @ '' (protected)'') toy_start)"
proof -
  let ?p = "[CHR 0xA0, CHR 0xC9, CHR ''t'', CHR 0xE9, CHR '' '']"
  let ?b = "[CHR 0xE9, CHR ''t'', CHR 0xE9]"
  let ?a = "toy_args\<lparr>protect := [ ?p ]\<rparr>"
  have h1: "?p \<in> set (protect ?a)"
    by code_simp
  have h2: "strip ?p \<noteq> []"
    by code_simp
  have h3: "lower ?b = lower (strip ?p)"
    by code_simp
  have h4: "?b \<noteq> ''dev''"
    by simp
  note t = additions_are_protected [OF h1 h2 h3 h4, of no_env toy_git "''dev''" toy_start]
  from t have c1: "lower ?b \<in> clean_protected no_env ?a"
    by blast
  from t have c2: "clean_body toy_git ?a (clean_protected no_env ?a) (clean_critical no_env ?a)
     ''dev'' ''dev'' ?b toy_start =
     (Inr (), print (''[SKIP] '' @ ?b @ '' (protected)'') toy_start)"
    by blast
  from h1 h2 h3 h4 c1 c2 show ?thesis by (intro conjI)
qed

text \<open>
  C4 as written fails: with \<open>--protect " Feature-X "\<close> the name \<open>feature-x\<close> is
  among the additions and is not in the critical set of the run.
\<close>

theorem critical_set_without_additions:
  "lower ''feature-x'' \<in> branch_names (protect (toy_args\<lparr>protect := ['' Feature-X '']\<rparr>)) \<and>
   lower ''feature-x'' \<notin> clean_critical no_env (toy_args\<lparr>protect := ['' Feature-X '']\<rparr>) \<and>
   clean_critical no_env (toy_args\<lparr>protect := ['' Feature-X '']\<rparr>) \<noteq>
     CRITICAL no_env \<union> branch_names (protect (toy_args\<lparr>protect := ['' Feature-X '']\<rparr>))"
proof -
  have 1: "lower ''feature-x'' \<in>
      branch_names (protect (toy_args\<lparr>protect := ['' Feature-X '']\<rparr>))"
    by code_simp
  have 2: "lower ''feature-x'' \<notin>
      clean_critical no_env (toy_args\<lparr>protect := ['' Feature-X '']\<rparr>)"
    by code_simp
  from 1 2 show ?thesis by blast
qed

section \<open>The output of a run\<close>

text \<open>
  C8 (as the code has it). When the loop over the branches completes, what it has
  written to standard output is, for each branch in the order of the list, the group of
  lines of that branch and nothing else: one line made of the tag \<open>[SKIP]\<close>, \<open>[KEEP]\<close>
  or \<open>[DEL ]\<close>, a blank, the name of the branch, a blank and a reason in parentheses;
  in dry-run mode, and only then, a \<open>[DEL ]\<close> line is followed by the line
  \<open>[DRY] git branch -d\<close> and the name of the branch (\<open>-D\<close> when forced). A deletion
  in dry-run mode thus gives two lines.
\<close>

theorem lines_report_branches_in_order:
  assumes "clean_loop sys a protected critical cur base_ref bs s = (Inr (), s')"
  shows "take (length (out s)) (out s') = out s \<and>
         reports a bs (drop (length (out s)) (out s'))"
  using loop_reports [OF assms] by auto

theorem lines_report_branches_in_order_witness:
  "fst (clean_loop toy_git (toy_args\<lparr>dry_run := True\<rparr>) (PROTECTED no_env) (CRITICAL no_env)
          ''Feature-X'' ''dev'' [''Feature-X'', ''dev'', ''feature-x'', ''42-fix-bug'', ''wip'']
          toy_start) = Inr () \<and>
   reports (toy_args\<lparr>dry_run := True\<rparr>)
     [''Feature-X'', ''dev'', ''feature-x'', ''42-fix-bug'', ''wip'']
     (drop (length (out toy_start))
        (out (snd (clean_loop toy_git (toy_args\<lparr>dry_run := True\<rparr>) (PROTECTED no_env)
                     (CRITICAL no_env) ''Feature-X'' ''dev''
                     [''Feature-X'', ''dev'', ''feature-x'', ''42-fix-bug'', ''wip'']
                     toy_start)))) \<and>
   out (snd (clean_loop toy_git (toy_args\<lparr>dry_run := True\<rparr>) (PROTECTED no_env)
               (CRITICAL no_env) ''Feature-X'' ''dev''
               [''Feature-X'', ''dev'', ''feature-x'', ''42-fix-bug'', ''wip''] toy_start)) =
     [''[SKIP] Feature-X (current)'', ''[SKIP] dev (protected)'',
      ''[DEL ] feature-x (tip 33333333 is in dev)'', ''[DRY] git branch -d feature-x'',
      ''[DEL ] 42-fix-bug (tip 55555555 is in dev)'', ''[DRY] git branch -d 42-fix-bug'',
      ''[KEEP] wip (tip 66666666 NOT in dev)'']"
proof -
  let ?loop = "clean_loop toy_git (toy_args\<lparr>dry_run := True\<rparr>) (PROTECTED no_env)
                 (CRITICAL no_env) ''Feature-X'' ''dev''
                 [''Feature-X'', ''dev'', ''feature-x'', ''42-fix-bug'', ''wip''] toy_start"
  have c1: "fst ?loop = Inr ()"
    by code_simp
  then have h: "?loop = (Inr (), snd ?loop)"
    by (metis prod.collapse)
  have c3: "out (snd ?loop) =
     [''[SKIP] Feature-X (current)'', ''[SKIP] dev (protected)'',
      ''[DEL ] feature-x (tip 33333333 is in dev)'', ''[DRY] git branch -d feature-x'',
      ''[DEL ] 42-fix-bug (tip 55555555 is in dev)'', ''[DRY] git branch -d 42-fix-bug'',
      ''[KEEP] wip (tip 66666666 NOT in dev)'']"
    by code_simp
  from lines_report_branches_in_order [OF h]
  have c2: "reports (toy_args\<lparr>dry_run := True\<rparr>)
              [''Feature-X'', ''dev'', ''feature-x'', ''42-fix-bug'', ''wip'']
              (drop (length (out toy_start)) (out (snd ?loop)))"
    by (rule conjunct2)
  from c1 c2 c3 show ?thesis by (intro conjI)
qed

text \<open>
  C8 as written fails: a dry run over the five branches of the small repository writes
  seven lines, a \<open>[DEL ]\<close> line and a \<open>[DRY]\<close> line for each of the two branches it
  would delete.
\<close>

theorem dry_run_deletion_prints_two_lines:
  "map fst (heads toy_repo) = [''Feature-X'', ''dev'', ''feature-x'', ''42-fix-bug'', ''wip''] \<and>
   fst (program toy_git no_env (toy_args\<lparr>dry_run := True\<rparr>) toy_start) = Inr () \<and>
   out (snd (program toy_git no_env (toy_args\<lparr>dry_run := True\<rparr>) toy_start)) =
     [''[SKIP] Feature-X (current)'', ''[SKIP] dev (protected)'',
      ''[DEL ] feature-x (tip 33333333 is in dev)'', ''[DRY] git branch -d feature-x'',
      ''[DEL ] 42-fix-bug (tip 55555555 is in dev)'', ''[DRY] git branch -d 42-fix-bug'',
      ''[KEEP] wip (tip 66666666 NOT in dev)'']"
  by code_simp

section \<open>Repeated runs\<close>

text \<open>
  C9. Two runs in dry-run mode with the same configuration, started in the same
  directory, end with the same result and have written the same lines to standard output
  and to standard error, whenever the two outside worlds give the same answers: the same
  answer to every question about a path and to every command that is not the deletion of
  a branch, before and after each such command. The worlds themselves may differ and
  commands may change them, as \<open>git fetch\<close> does; a dry run starts no deletion.
\<close>

theorem dry_runs_with_the_same_answers_agree:
  assumes "dry_run a" and "same_answers sys1 sys2 R" and "R v w"
  shows "fst (program sys1 env a (fresh d v)) = fst (program sys2 env a (fresh d w)) \<and>
         out (snd (program sys1 env a (fresh d v))) =
           out (snd (program sys2 env a (fresh d w))) \<and>
         err (snd (program sys1 env a (fresh d v))) =
           err (snd (program sys2 env a (fresh d w)))"
proof -
  from assms(3) have "alike R (fresh d v) (fresh d w)"
    by (simp add: alike_def fresh_def)
  from program_agrees [OF assms(2,1) this, of env] show ?thesis
    by (simp add: agrees_def alike_def)
qed

theorem dry_runs_with_the_same_answers_agree_witness:
  "dry_run (toy_args\<lparr>dry_run := True, fetch := True\<rparr>) \<and>
   same_answers toy_git toy_git up_to_fetches \<and>
   up_to_fetches toy_repo
     (world (snd (program toy_git no_env (toy_args\<lparr>dry_run := True, fetch := True\<rparr>)
                    (fresh ''/'' toy_repo)))) \<and>
   fetches (world (snd (program toy_git no_env (toy_args\<lparr>dry_run := True, fetch := True\<rparr>)
                          (fresh ''/'' toy_repo)))) = 1 \<and>
   fst (program toy_git no_env (toy_args\<lparr>dry_run := True, fetch := True\<rparr>)
          (fresh ''/'' toy_repo)) =
   fst (program toy_git no_env (toy_args\<lparr>dry_run := True, fetch := True\<rparr>)
          (fresh ''/'' (world (snd (program toy_git no_env
             (toy_args\<lparr>dry_run := True, fetch := True\<rparr>) (fresh ''/'' toy_repo)))))) \<and>
   out (snd (program toy_git no_env (toy_args\<lparr>dry_run := True, fetch := True\<rparr>)
               (fresh ''/'' toy_repo))) =
   out (snd (program toy_git no_env (toy_args\<lparr>dry_run := True, fetch := True\<rparr>)
               (fresh ''/'' (world (snd (program toy_git no_env
                  (toy_args\<lparr>dry_run := True, fetch := True\<rparr>) (fresh ''/'' toy_repo))))))) \<and>
   length (out (snd (program toy_git no_env (toy_args\<lparr>dry_run := True, fetch := True\<rparr>)
                       (fresh ''/'' toy_repo)))) = 7"
proof -
  let ?a = "toy_args\<lparr>dry_run := True, fetch := True\<rparr>"
  let ?w = "world (snd (program toy_git no_env ?a (fresh ''/'' toy_repo)))"
  have d: "dry_run ?a"
    by code_simp
  have sa: "same_answers toy_git toy_git up_to_fetches"
    unfolding same_answers_def
  proof (intro conjI allI impI)
    fix d cmd v w
    assume h: "up_to_fetches v w \<and> \<not> is_branch_delete cmd"
    then obtain n where w: "w = v\<lparr>fetches := n\<rparr>"
      by (auto simp: up_to_fetches_def)
    have step: "fst (toy_run d cmd (v\<lparr>fetches := n\<rparr>)) = fst (toy_run d cmd v) \<and>
        up_to_fetches (snd (toy_run d cmd v)) (snd (toy_run d cmd (v\<lparr>fetches := n\<rparr>)))"
    proof (cases "take 2 cmd = [''git'', ''fetch''] \<and> cmd \<notin> set (broken v)")
      case True
      have "v\<lparr>fetches := Suc n\<rparr> = v\<lparr>fetches := Suc (fetches v)\<rparr>\<lparr>fetches := Suc n\<rparr>"
        by simp
      then have "up_to_fetches (v\<lparr>fetches := Suc (fetches v)\<rparr>) (v\<lparr>fetches := Suc n\<rparr>)"
        unfolding up_to_fetches_def by (rule exI)
      with h True show ?thesis
        by (simp add: toy_run_def)
    next
      case False
      have "up_to_fetches v (v\<lparr>fetches := n\<rparr>)"
        unfolding up_to_fetches_def by (rule exI) (rule refl)
      with h False show ?thesis
        by (auto simp: toy_run_def toy_answer_fetches)
    qed
    then show "fst (subprocess_run toy_git d cmd v) = fst (subprocess_run toy_git d cmd w)"
      and "up_to_fetches (snd (subprocess_run toy_git d cmd v))
             (snd (subprocess_run toy_git d cmd w))"
      by (simp_all add: toy_git_def w)
  next
    fix d p v w
    assume "up_to_fetches v w"
    then obtain n where w: "w = v\<lparr>fetches := n\<rparr>"
      by (auto simp: up_to_fetches_def)
    show "is_dir toy_git d p v = is_dir toy_git d p w"
      and "path_exists toy_git d p v = path_exists toy_git d p w"
      by (simp_all add: toy_git_def w)
  qed
  have w1: "?w = toy_repo\<lparr>fetches := 1\<rparr>"
    by code_simp
  then have r: "up_to_fetches toy_repo ?w"
    unfolding up_to_fetches_def by (rule exI)
  have f: "fetches ?w = 1"
    by code_simp
  have n: "length (out (snd (program toy_git no_env ?a (fresh ''/'' toy_repo)))) = 7"
    by code_simp
  note t = dry_runs_with_the_same_answers_agree [OF d sa r, of no_env "''/''"]
  from d sa r f t [THEN conjunct1] t [THEN conjunct2, THEN conjunct1] n
  show ?thesis by (intro conjI)
qed

section \<open>Exit codes\<close>

text \<open>
  C3 (as the code has it). With the module-level checks passed, the process ends with
  exit code 2 when the repository path does not exist, is not a directory or has no
  \<open>.git\<close> directory, when the git command that resolves the current branch or the one
  that lists the local branches ends with a return code other than 0, and when the
  command that verifies the base reference prints nothing. A protected or critical set
  that resolves to the empty set makes the module raise \<open>RuntimeError\<close> before anything
  else happens; nothing catches it, and the process ends with status 1.
\<close>

theorem exit_codes_of_configuration_failures:
  "(module_init env = Inr () \<and>
    (\<not> path_exists sys (cwd s) (repo a) (world s) \<or>
     \<not> is_dir sys (cwd s) (repo a) (world s) \<or>
     \<not> is_dir sys (cwd s) (path_join (repo a) ''.git'') (world s) \<or>
     returncode (fst (spawn sys [''git'', ''branch'', ''--show-current'']
                        (clean_enter sys a s))) \<noteq> 0 \<or>
     returncode (fst (spawn sys [''git'', ''for-each-ref'', ''--format=%(refname:short)'',
                                 ''refs/heads'']
                        (snd (current_branch sys (clean_enter sys a s))))) \<noteq> 0 \<or>
     strip (stdout (fst (spawn sys [''git'', ''rev-parse'', ''--verify'', ''--quiet'', base a]
            (snd (local_branches sys (snd (current_branch sys (clean_enter sys a s)))))))) =
       []) \<longrightarrow>
    exit_status (fst (program sys env a s)) = 2) \<and>
   (PROTECTED env = {} \<or> CRITICAL env = {} \<longrightarrow>
    exit_status (fst (program sys env a s)) = 1 \<and> snd (program sys env a s) = s)"
proof (rule conjI; rule impI)
  let ?s1 = "clean_enter sys a s"
  let ?s2 = "snd (current_branch sys ?s1)"
  let ?s3 = "snd (local_branches sys ?s2)"
  let ?verify = "run sys [''git'', ''rev-parse'', ''--verify'', ''--quiet'', base a] False ?s3"
  assume given: "module_init env = Inr () \<and>
    (\<not> path_exists sys (cwd s) (repo a) (world s) \<or>
     \<not> is_dir sys (cwd s) (repo a) (world s) \<or>
     \<not> is_dir sys (cwd s) (path_join (repo a) ''.git'') (world s) \<or>
     returncode (fst (spawn sys [''git'', ''branch'', ''--show-current''] ?s1)) \<noteq> 0 \<or>
     returncode (fst (spawn sys [''git'', ''for-each-ref'', ''--format=%(refname:short)'',
                                 ''refs/heads''] ?s2)) \<noteq> 0 \<or>
     strip (stdout (fst (spawn sys [''git'', ''rev-parse'', ''--verify'', ''--quiet'', base a]
                           ?s3))) = [])"
  have e1: "(\<exists>e. fst (current_branch sys ?s1) = Inl e) \<longleftrightarrow>
      returncode (fst (spawn sys [''git'', ''branch'', ''--show-current''] ?s1)) \<noteq> 0"
    unfolding current_branch_def by (rule run_checked_fails)
  have e2: "(\<exists>e. fst (local_branches sys ?s2) = Inl e) \<longleftrightarrow>
      returncode (fst (spawn sys [''git'', ''for-each-ref'', ''--format=%(refname:short)'',
                                  ''refs/heads''] ?s2)) \<noteq> 0"
    unfolding local_branches_fails by (rule run_checked_fails)
  have e3: "fst ?verify = Inr [] \<longleftrightarrow>
      strip (stdout (fst (spawn sys [''git'', ''rev-parse'', ''--verify'', ''--quiet'', base a]
                            ?s3))) = []"
    by (simp add: run_unchecked)
  from given have h: "module_init env = Inr () \<and>
    (\<not> path_exists sys (cwd s) (repo a) (world s) \<or>
     \<not> is_dir sys (cwd s) (repo a) (world s) \<or>
     \<not> is_dir sys (cwd s) (path_join (repo a) ''.git'') (world s) \<or>
     (\<exists>e. fst (current_branch sys ?s1) = Inl e) \<or>
     (\<exists>e. fst (local_branches sys ?s2) = Inl e) \<or>
     fst ?verify = Inr [])"
    unfolding e1 e2 e3 .
  then have init: "module_init env = Inr ()" by simp
  show "exit_status (fst (program sys env a s)) = 2"
  proof (cases "path_exists sys (cwd s) (repo a) (world s)")
    case False
    with init show ?thesis by (simp add: program_def)
  next
    case True
    with init have prog: "program sys env a s = clean sys env a s"
      by (simp add: program_def)
    show ?thesis
    proof (cases "is_dir sys (cwd s) (repo a) (world s) \<and>
                  is_dir sys (cwd s) (path_join (repo a) ''.git'') (world s)")
      case False
      then have "\<exists>msg. ensure_git_repo sys (repo a) s = (Inl (RuntimeError msg), s)"
        by (cases "is_dir sys (cwd s) (repo a) (world s)") (simp_all add: ensure_git_repo_def)
      then obtain msg where "ensure_git_repo sys (repo a) s = (Inl (RuntimeError msg), s)"
        by blast
      then have "clean_try sys a s = (Inl (RuntimeError msg), s)"
        by (simp add: clean_try_def)
      then show ?thesis by (simp add: prog clean_def)
    next
      case repo_ok: True
      then have ens: "ensure_git_repo sys (repo a) s = (Inr (), s)"
        by (simp add: ensure_git_repo_def)
      obtain r2 s2 where cur: "current_branch sys ?s1 = (r2, s2)"
        by (cases "current_branch sys ?s1")
      then have s2: "?s2 = s2" by simp
      show ?thesis
      proof (cases r2)
        case (Inl e)
        with cur have "fst (run sys [''git'', ''branch'', ''--show-current''] True ?s1) = Inl e"
          by (simp add: current_branch_def)
        then obtain msg where "e = RuntimeError msg"
          using run_raises by blast
        with ens cur Inl have "clean_try sys a s = (Inl (RuntimeError msg), s2)"
          by (simp add: clean_try_def)
        then show ?thesis by (simp add: prog clean_def)
      next
        case (Inr cur_name)
        note cur_ok = this
        obtain r3 s3 where loc: "local_branches sys s2 = (r3, s3)"
          by (cases "local_branches sys s2")
        then have s3: "?s3 = s3" by (simp add: s2)
        show ?thesis
        proof (cases r3)
          case (Inl e)
          with loc have "fst (local_branches sys s2) = Inl e"
            by simp
          then obtain msg where "e = RuntimeError msg"
            using local_branches_raises by blast
          with ens cur cur_ok loc Inl have "clean_try sys a s = (Inl (RuntimeError msg), s3)"
            by (simp add: clean_try_def)
          then show ?thesis by (simp add: prog clean_def)
        next
          case (Inr branches)
          with ens cur cur_ok loc
          have tried: "clean_try sys a s = (Inr (cur_name, branches), s3)"
            by (simp add: clean_try_def)
          from h True repo_ok have "(\<exists>e. fst (current_branch sys ?s1) = Inl e) \<or>
              (\<exists>e. fst (local_branches sys ?s2) = Inl e) \<or> fst ?verify = Inr []"
            by blast
          with cur cur_ok loc Inr have "fst ?verify = Inr []"
            by (simp add: s2)
          then obtain s4 where "run sys [''git'', ''rev-parse'', ''--verify'', ''--quiet'', base a]
              False s3 = (Inr [], s4)"
            unfolding s3 by (cases "run sys [''git'', ''rev-parse'', ''--verify'', ''--quiet'',
              base a] False s3") simp
          with tried show ?thesis by (simp add: prog clean_def)
        qed
      qed
    qed
  qed
next
  assume "PROTECTED env = {} \<or> CRITICAL env = {}"
  then have "\<exists>msg. module_init env = Inl (RuntimeError msg)"
    by (cases "PROTECTED env = {}") (simp_all add: module_init_def)
  then obtain msg where "module_init env = Inl (RuntimeError msg)"
    by blast
  then show "exit_status (fst (program sys env a s)) = 1 \<and> snd (program sys env a s) = s"
    by (simp add: program_def)
qed

theorem exit_codes_of_configuration_failures_witness:
  "module_init no_env = Inr () \<and>
   \<not> path_exists toy_git (cwd toy_start) (repo (toy_args\<lparr>repo := ''/nowhere''\<rparr>))
       (world toy_start) \<and>
   exit_status (fst (program toy_git no_env (toy_args\<lparr>repo := ''/nowhere''\<rparr>) toy_start)) = 2 \<and>
   \<not> is_dir toy_git (cwd toy_start)
       (path_join (repo (toy_args\<lparr>repo := ''/srv/empty''\<rparr>)) ''.git'') (world toy_start) \<and>
   exit_status (fst (program toy_git no_env (toy_args\<lparr>repo := ''/srv/empty''\<rparr>) toy_start)) = 2 \<and>
   returncode (fst (spawn toy_git [''git'', ''branch'', ''--show-current'']
          (clean_enter toy_git toy_args
             (fresh ''/'' (toy_repo\<lparr>broken := [ [''git'', ''branch'', ''--show-current''] ]\<rparr>))))) =
     128 \<and>
   exit_status (fst (program toy_git no_env toy_args
      (fresh ''/'' (toy_repo\<lparr>broken := [ [''git'', ''branch'', ''--show-current''] ]\<rparr>)))) = 2 \<and>
   strip (stdout (fst (spawn toy_git [''git'', ''rev-parse'', ''--verify'', ''--quiet'',
                     base (toy_args\<lparr>base := ''gone''\<rparr>)]
          (snd (local_branches toy_git (snd (current_branch toy_git
             (clean_enter toy_git (toy_args\<lparr>base := ''gone''\<rparr>) toy_start)))))))) = [] \<and>
   exit_status (fst (program toy_git no_env (toy_args\<lparr>base := ''gone''\<rparr>) toy_start)) = 2 \<and>
   PROTECTED blank_env = {} \<and>
   exit_status (fst (program toy_git blank_env toy_args toy_start)) = 1"
proof -
  let ?nowhere = "toy_args\<lparr>repo := ''/nowhere''\<rparr>"
  let ?empty = "toy_args\<lparr>repo := ''/srv/empty''\<rparr>"
  let ?gone = "toy_args\<lparr>base := ''gone''\<rparr>"
  let ?broken = "fresh ''/'' (toy_repo\<lparr>broken := [ [''git'', ''branch'', ''--show-current''] ]\<rparr>)"
  note two = exit_codes_of_configuration_failures [THEN conjunct1, rule_format]
  note one = exit_codes_of_configuration_failures [THEN conjunct2, rule_format]
  have init: "module_init no_env = Inr ()"
    by (simp add: module_init_def toy_defs string_defs)
  have h1: "\<not> path_exists toy_git (cwd toy_start) (repo ?nowhere) (world toy_start)"
    by code_simp
  have h2: "\<not> is_dir toy_git (cwd toy_start) (path_join (repo ?empty) ''.git'')
      (world toy_start)"
    by code_simp
  have h3: "returncode (fst (spawn toy_git [''git'', ''branch'', ''--show-current'']
      (clean_enter toy_git toy_args ?broken))) = 128"
    by code_simp
  then have h3': "returncode (fst (spawn toy_git [''git'', ''branch'', ''--show-current'']
      (clean_enter toy_git toy_args ?broken))) \<noteq> 0"
    by simp
  have h4: "strip (stdout (fst (spawn toy_git [''git'', ''rev-parse'', ''--verify'', ''--quiet'',
      base ?gone] (snd (local_branches toy_git (snd (current_branch toy_git
        (clean_enter toy_git ?gone toy_start)))))))) = []"
    by code_simp
  have h5: "PROTECTED blank_env = {}"
    by (simp add: toy_defs string_defs)
  have c1: "exit_status (fst (program toy_git no_env ?nowhere toy_start)) = 2"
    using init h1 by (intro two) blast
  have c2: "exit_status (fst (program toy_git no_env ?empty toy_start)) = 2"
    using init h2 by (intro two) blast
  have c3: "exit_status (fst (program toy_git no_env toy_args ?broken)) = 2"
    using init h3' by (intro two) blast
  have c4: "exit_status (fst (program toy_git no_env ?gone toy_start)) = 2"
    using init h4 by (intro two) blast
  have c5: "exit_status (fst (program toy_git blank_env toy_args toy_start)) = 1"
    using h5 one [of blank_env toy_git toy_args toy_start] by blast
  from init h1 c1 h2 c2 h3 c3 h4 c4 h5 c5 show ?thesis by (intro conjI)
qed

text \<open>
  C3 as written fails: with \<open>PROTECTED_BRANCHES\<close> set to a comma between blanks
  the protected set is empty and the process ends with status 1, not 2.
\<close>

theorem empty_protected_set_exits_1:
  "PROTECTED blank_env = {} \<and>
   program toy_git blank_env toy_args toy_start =
     (Inl (RuntimeError (''PROTECTED_BRANCHES resolved to an empty set. '' @
                         ''Refusing to run to avoid deleting important branches.'')),
      toy_start) \<and>
   exit_status (fst (program toy_git blank_env toy_args toy_start)) = 1"
  by (simp add: program_def module_init_def toy_defs string_defs)

text \<open>
  An exception of \<open>tip_sha\<close> is raised inside the loop, outside the \<open>try\<close> of
  \<open>clean\<close>: the run stops after the lines already written and ends with status 1.
\<close>

lemma tip_failure_is_not_caught:
  "fst (program toy_git no_env toy_args
          (fresh ''/'' (toy_repo\<lparr>broken := [ [''git'', ''rev-parse'', ''feature-x''] ]\<rparr>))) =
     Inl (RuntimeError (''Command failed: git rev-parse feature-x'' @ [CHR 0x0A] @
                        ''fatal: broken'')) \<and>
   exit_status (fst (program toy_git no_env toy_args
          (fresh ''/'' (toy_repo\<lparr>broken := [ [''git'', ''rev-parse'', ''feature-x''] ]\<rparr>)))) = 1 \<and>
   out (snd (program toy_git no_env toy_args
          (fresh ''/'' (toy_repo\<lparr>broken := [ [''git'', ''rev-parse'', ''feature-x''] ]\<rparr>)))) =
     [''[SKIP] Feature-X (current)'', ''[SKIP] dev (protected)'']"
  by code_simp

end
